theory Spec2Isabelle
  imports Complex_Main "HOL-Library.AList"
begin

section \<open>Data model\<close>

text \<open>
  Coordinates and sizes are JavaScript numbers; they are modelled as \<^typ>\<open>real\<close> (finite,
  not NaN).  \<open>Infinity\<close>, which the reorder pass uses as the initial minimal gap, is the
  value \<open>None\<close> of a \<^typ>\<open>real option\<close>.
\<close>

datatype Direction = vertical | horizontal

text \<open>\<open>Pointer\<close> of \<open>types.ts\<close>: the pointer sample of one move event.\<close>

record Pointer =
  clientX :: real
  clientY :: real

text \<open>\<open>window.innerWidth\<close> and \<open>window.innerHeight\<close>.\<close>

record window =
  innerWidth :: real
  innerHeight :: real

text \<open>
  The part of a \<open>DOMRect\<close> the program reads.  \<open>bottom\<close> is derived: for the rectangle of
  an element (\<open>getBoundingClientRect\<close>, height not negative) it is \<open>top + height\<close>.
\<close>

record DOMRect =
  top :: real
  left :: real
  width :: real
  height :: real

definition bottom :: "DOMRect \<Rightarrow> real" where
  "bottom r = top r + height r"

record Threshold =
  thresholdY :: real
  thresholdX :: real

text \<open>
  An inline style value.  The program builds these strings from templates; the model keeps
  the template and its arguments:
  \<^item> \<open>ShiftTransition t fn\<close> is \<^verbatim>\<open>`transform ${t}ms ${fn}`\<close>,
  \<^item> \<open>SettleTransition t\<close> is
    \<^verbatim>\<open>`transform ${t}ms ease-in-out, top ${t}ms ease-in-out, left ${t}ms ease-in-out`\<close>,
  \<^item> \<open>Translate3d x y z\<close> is \<^verbatim>\<open>`translate3d(${x}px, ${y}px, ${z}px)`\<close>
    (\<open>translate3D(0, 0, 0)\<close> is \<open>Translate3d 0 0 0\<close>),
  \<^item> \<open>Px n\<close> is \<^verbatim>\<open>`${n}px`\<close>, and \<open>Raw s\<close> is any other text.
\<close>

datatype css_value =
    ShiftTransition real string
  | SettleTransition real
  | Translate3d real real real
  | Px real
  | Raw string

text \<open>
  What the program reads from \<open>window.getComputedStyle(node)\<close>: the \<open>transform\<close>
  string, and the integers \<open>parseInt\<close> returns for the margins and paddings.
\<close>

record ComputedStyle =
  transform :: string
  marginTop :: int
  marginLeft :: int
  paddingTop :: int
  paddingLeft :: int

text \<open>
  An element: its identity (\<open>ref\<close>, what \<open>===\<close> compares), the value of its
  \<open>data-dnd-draggable-id\<close> attribute, its current bounding rectangle, its inline style
  properties in order, whether it has a \<open>style\<close> attribute, and its computed style.
\<close>

record HTMLElement =
  ref :: nat
  draggableIdAttr :: "string option"
  rect :: DOMRect
  style :: "(string \<times> css_value) list"
  styleAttr :: bool
  computedStyle :: ComputedStyle

section \<open>Geometry utilities (dom.ts)\<close>

text \<open>
  \<open>getThreshold(rect, pointer)\<close>:
  \<^verbatim>\<open>thresholdY = top > 0 ? top : pointer.clientY < window.innerHeight / 2 ? 0 : window.innerHeight\<close>
  and the same on the x axis with \<open>left\<close>, \<open>clientX\<close> and \<open>innerWidth\<close>.
\<close>

definition getThreshold :: "window \<Rightarrow> DOMRect \<Rightarrow> Pointer \<Rightarrow> Threshold" where
  "getThreshold w r pointer =
     \<lparr> thresholdY =
         (if top r > 0 then top r
          else if clientY pointer < innerHeight w / 2 then 0 else innerHeight w),
       thresholdX =
         (if left r > 0 then left r
          else if clientX pointer < innerWidth w / 2 then 0 else innerWidth w) \<rparr>"


text \<open>\<open>namesMap[key] || key\<close> of \<open>setStyles\<close>.\<close>

definition namesMap :: "string \<Rightarrow> string" where
  "namesMap key =
     (if key = ''zIndex'' then ''z-index''
      else if key = ''transformOrigin'' then ''transform-origin'' else key)"

definition setProperty :: "string \<Rightarrow> css_value \<Rightarrow> HTMLElement \<Rightarrow> HTMLElement" where
  "setProperty name v node = node\<lparr>style := AList.update name v (style node), styleAttr := True\<rparr>"

text \<open>\<open>setStyles(node, style)\<close>: one \<open>setProperty\<close> for each key, in key order.\<close>

definition setStyles :: "HTMLElement \<Rightarrow> (string \<times> css_value) list \<Rightarrow> HTMLElement" where
  "setStyles node styles = fold (\<lambda>(key, v). setProperty (namesMap key) v) styles node"

text \<open>
  \<open>removeStyleAttrIfEmpty(node)\<close>: the \<open>style\<close> attribute is the empty string exactly
  when no inline property is left; then the attribute is removed.
\<close>

definition removeStyleAttrIfEmpty :: "HTMLElement \<Rightarrow> HTMLElement" where
  "removeStyleAttrIfEmpty node = (if style node = [] then node\<lparr>styleAttr := False\<rparr> else node)"

text \<open>
  \<open>removeStyles(node, keys)\<close>: each key that has a value is removed, then
  \<open>removeStyleAttrIfEmpty\<close>.
\<close>

definition removeStyles :: "HTMLElement \<Rightarrow> string list \<Rightarrow> HTMLElement" where
  "removeStyles node keys =
     removeStyleAttrIfEmpty
       (fold (\<lambda>key n. if map_of (style n) key \<noteq> None
                        then n\<lparr>style := AList.delete key (style n)\<rparr> else n) keys node)"

text \<open>
  \<open>detectIsActiveDraggableNode(node, activeDraggableID)\<close>: the attribute equals the
  identity of the dragged item, written as a string.
\<close>

definition detectIsActiveDraggableNode :: "HTMLElement \<Rightarrow> string \<Rightarrow> bool" where
  "detectIsActiveDraggableNode node activeDraggableID = (draggableIdAttr node = Some activeDraggableID)"

section \<open>Drag end: the commit descriptor (droppable.tsx, handleDragEnd)\<close>

text \<open>\<open>Array.prototype.findIndex\<close>: the first index whose element satisfies \<open>p\<close>, or -1.\<close>

fun findIndex :: "('a \<Rightarrow> bool) \<Rightarrow> 'a list \<Rightarrow> int" where
  "findIndex p [] = - 1"
| "findIndex p (x # xs) =
     (if p x then 0 else (let i = findIndex p xs in if i = - 1 then - 1 else i + 1))"

record DragEndDescriptor =
  draggableID :: string
  droppableID :: string
  droppableGroupID :: string
  sourceIdx :: int
  destinationIdx :: int
  isMoving :: bool
  targetNode :: HTMLElement

text \<open>One iteration of the loop of \<open>handleDragEnd\<close>: \<open>map[direction]()\<close>.\<close>

definition countStep :: "Direction \<Rightarrow> DOMRect \<Rightarrow> HTMLElement \<Rightarrow> int \<Rightarrow> int" where
  "countStep direction targetRect node idx =
     (case direction of
        vertical \<Rightarrow>
          (if top targetRect + height targetRect > top (rect node) + height (rect node)
           then idx + 1 else idx)
      | horizontal \<Rightarrow>
          (if left targetRect + width targetRect > left (rect node) + width (rect node)
           then idx + 1 else idx))"

text \<open>
  \<open>handleDragEnd(targetNode)\<close>: the descriptor passed to \<open>onDragEnd\<close>.  \<open>nodes\<close> is
  the memoised item list of the container, read with its rectangles as they are when the
  function runs.
\<close>

definition handleDragEnd ::
  "Direction \<Rightarrow> string \<Rightarrow> string \<Rightarrow> string \<Rightarrow> HTMLElement list \<Rightarrow> HTMLElement \<Rightarrow> DragEndDescriptor"
where
  "handleDragEnd direction activeDraggableID dropID groupID nodes target =
     (let srcIdx = findIndex (\<lambda>x. detectIsActiveDraggableNode x activeDraggableID) nodes;
          targetRect = rect target;
          moving = (srcIdx = - 1);
          dstIdx = fold (countStep direction targetRect) nodes 0
      in \<lparr> draggableID = activeDraggableID, droppableID = dropID, droppableGroupID = groupID,
           sourceIdx = srcIdx, destinationIdx = dstIdx, isMoving = moving, targetNode = target \<rparr>)"

text \<open>
  The timer callback that \<open>handleDragEnd\<close> schedules clears the shift styles of every
  node: \<open>nodes.forEach(x => removeStyles(x, ['transition', 'transform']))\<close>.
\<close>

definition clearShiftStyles :: "HTMLElement list \<Rightarrow> HTMLElement list" where
  "clearShiftStyles nodes = map (\<lambda>x. removeStyles x [''transition'', ''transform'']) nodes"

text \<open>An element as the examples below use it: no inline style, computed transform \<open>none\<close>.\<close>

definition plainItem :: "nat \<Rightarrow> string \<Rightarrow> real \<Rightarrow> real \<Rightarrow> real \<Rightarrow> real \<Rightarrow> HTMLElement" where
  "plainItem r ident t l w h =
     \<lparr> ref = r, draggableIdAttr = Some ident,
       rect = \<lparr>top = t, left = l, width = w, height = h\<rparr>,
       style = [], styleAttr = False,
       computedStyle = \<lparr>transform = ''none'', marginTop = 0, marginLeft = 0,
                        paddingTop = 0, paddingLeft = 0\<rparr> \<rparr>"

section \<open>The reorder pass (droppable.tsx, transformNodesByTarget)\<close>

text \<open>
  \<open>safeNumber\<close> is imported from \<open>./utils\<close>; its body is not in \<open>dom.ts\<close> or
  \<open>droppable.tsx\<close>, so every function that calls it takes it as the parameter \<open>sn\<close>
  and every property below holds for any such function.
\<close>

type_synonym safeNumber = "real \<Rightarrow> real"

text \<open>\<open>diff < minimalDiff\<close>, where \<open>None\<close> is \<open>Infinity\<close>.\<close>

definition lessThanMinimal :: "real \<Rightarrow> real option \<Rightarrow> bool" where
  "lessThanMinimal diff m = (case m of None \<Rightarrow> True | Some v \<Rightarrow> diff < v)"

text \<open>
  The variables the closures of one pass share.  The elements of \<open>nodes\<close> are mutable
  objects; \<open>elements\<close> holds them by position, and \<open>nearestNode\<close> refers to one by its
  position (\<open>None\<close> is \<open>null\<close>).
\<close>

record PassState =
  elements :: "HTMLElement list"
  minimalDiff :: "real option"
  nearestNode :: "nat option"

text \<open>What one iteration of the first loop has read for the node at position \<open>idx\<close>.\<close>

record NodeReading =
  idx :: nat
  readTop :: real
  readLeft :: real
  readThreshold :: Threshold

text \<open>
  The first loop: the dragged item is skipped (\<open>continue\<close>); for every other node the
  rectangle and the threshold are read and a closure is pushed.
\<close>

definition readNodes ::
  "safeNumber \<Rightarrow> window \<Rightarrow> DOMRect \<Rightarrow> Pointer \<Rightarrow> string \<Rightarrow> HTMLElement list \<Rightarrow> NodeReading list"
where
  "readNodes sn w targetRect pointer activeDraggableID nodes =
     map (\<lambda>(i, node). \<lparr> idx = i, readTop = sn (top (rect node)), readLeft = sn (left (rect node)),
                          readThreshold = getThreshold w targetRect pointer \<rparr>)
         (filter (\<lambda>(i, node). \<not> detectIsActiveDraggableNode node activeDraggableID)
                 (enumerate 0 nodes))"

text \<open>The closure \<open>map[direction]\<close> pushed for one node.\<close>

definition shiftClosure ::
  "safeNumber \<Rightarrow> Direction \<Rightarrow> real \<Rightarrow> real \<Rightarrow> real \<Rightarrow> string \<Rightarrow> NodeReading \<Rightarrow> PassState \<Rightarrow> PassState"
where
  "shiftClosure sn direction nodeHeight nodeWidth transitionTimeout transitionTimingFn rd st =
     (case direction of
        vertical \<Rightarrow>
          (if thresholdY (readThreshold rd) \<le> readTop rd then
             st\<lparr>elements := (elements st)[idx rd :=
                   setStyles (elements st ! idx rd)
                     [(''transition'', ShiftTransition transitionTimeout transitionTimingFn),
                      (''transform'', Translate3d 0 nodeHeight 0)]]\<rparr>
           else
             (let st1 = st\<lparr>elements := (elements st)[idx rd :=
                               removeStyles (elements st ! idx rd) [''transform'']]\<rparr>;
                  diff = sn (thresholdY (readThreshold rd) - readTop rd)
              in if lessThanMinimal diff (minimalDiff st1)
                 then st1\<lparr>minimalDiff := Some diff, nearestNode := Some (idx rd)\<rparr> else st1))
      | horizontal \<Rightarrow>
          (if thresholdX (readThreshold rd) \<le> readLeft rd then
             st\<lparr>elements := (elements st)[idx rd :=
                   setStyles (elements st ! idx rd)
                     [(''transition'', ShiftTransition transitionTimeout transitionTimingFn),
                      (''transform'', Translate3d nodeWidth 0 0)]]\<rparr>
           else
             (let st1 = st\<lparr>elements := (elements st)[idx rd :=
                               removeStyles (elements st ! idx rd) [''transform'']]\<rparr>;
                  diff = sn (thresholdX (readThreshold rd) - readLeft rd)
              in if lessThanMinimal diff (minimalDiff st1)
                 then st1\<lparr>minimalDiff := Some diff, nearestNode := Some (idx rd)\<rparr> else st1)))"

text \<open>
  \<open>transformNodesByTarget(options)\<close>: all readings first, then \<open>fns.forEach(fn => fn())\<close>.
  \<open>transitionTimeout\<close> and \<open>transitionTimingFn\<close> default to 0 and the empty string.  The
  result holds the elements after the pass and the node passed to \<open>onMarkNearestNode\<close>.
\<close>

definition transformNodesByTarget ::
  "safeNumber \<Rightarrow> window \<Rightarrow> Direction \<Rightarrow> DOMRect \<Rightarrow> Pointer \<Rightarrow> HTMLElement list \<Rightarrow> string \<Rightarrow>
   real \<Rightarrow> real \<Rightarrow> real option \<Rightarrow> string option \<Rightarrow> PassState"
where
  "transformNodesByTarget sn w direction targetRect pointer nodes activeDraggableID
       nodeHeight nodeWidth transitionTimeout transitionTimingFn =
     (let timeout = (case transitionTimeout of None \<Rightarrow> 0 | Some t \<Rightarrow> t);
          timingFn = (case transitionTimingFn of None \<Rightarrow> [] | Some f \<Rightarrow> f);
          fns = map (shiftClosure sn direction nodeHeight nodeWidth timeout timingFn)
                    (readNodes sn w targetRect pointer activeDraggableID nodes)
      in fold (\<lambda>fn st. fn st) fns
           \<lparr>elements = nodes, minimalDiff = None, nearestNode = None\<rparr>)"

text \<open>
  The words of the description of the pass, for stating its properties: the threshold and
  the leading edge on the axis as the pass reads them, the gap between them, and the style
  written to a sibling that shifts.
\<close>

definition axisThreshold :: "window \<Rightarrow> Direction \<Rightarrow> DOMRect \<Rightarrow> Pointer \<Rightarrow> real" where
  "axisThreshold w direction targetRect pointer =
     (case direction of
        vertical \<Rightarrow> thresholdY (getThreshold w targetRect pointer)
      | horizontal \<Rightarrow> thresholdX (getThreshold w targetRect pointer))"

definition leadingEdge :: "safeNumber \<Rightarrow> Direction \<Rightarrow> HTMLElement \<Rightarrow> real" where
  "leadingEdge sn direction node =
     (case direction of vertical \<Rightarrow> sn (top (rect node)) | horizontal \<Rightarrow> sn (left (rect node)))"

definition gapTo :: "safeNumber \<Rightarrow> Direction \<Rightarrow> real \<Rightarrow> HTMLElement \<Rightarrow> real" where
  "gapTo sn direction threshold node = sn (threshold - leadingEdge sn direction node)"

definition shiftStyles :: "Direction \<Rightarrow> real \<Rightarrow> real \<Rightarrow> real \<Rightarrow> string \<Rightarrow> (string \<times> css_value) list" where
  "shiftStyles direction nodeHeight nodeWidth timeout timingFn =
     [(''transition'', ShiftTransition timeout timingFn),
      (''transform'', (case direction of vertical \<Rightarrow> Translate3d 0 nodeHeight 0
                                        | horizontal \<Rightarrow> Translate3d nodeWidth 0 0))]"

text \<open>
  The pass without the shared store, one node after the other: what it does to a node, and
  how it tracks the nearest one from position \<open>k\<close> on.
\<close>

definition passEffect ::
  "safeNumber \<Rightarrow> Direction \<Rightarrow> real \<Rightarrow> string \<Rightarrow> (string \<times> css_value) list \<Rightarrow> HTMLElement \<Rightarrow> HTMLElement"
where
  "passEffect sn direction threshold activeDraggableID styles node =
     (if detectIsActiveDraggableNode node activeDraggableID then node
      else if threshold \<le> leadingEdge sn direction node then setStyles node styles
      else removeStyles node [''transform''])"

fun passTrack ::
  "safeNumber \<Rightarrow> Direction \<Rightarrow> real \<Rightarrow> string \<Rightarrow> nat \<Rightarrow> HTMLElement list \<Rightarrow>
   real option \<times> nat option \<Rightarrow> real option \<times> nat option"
where
  "passTrack sn direction threshold a k [] tr = tr"
| "passTrack sn direction threshold a k (n # ns) (m, nn) =
     (if detectIsActiveDraggableNode n a \<or> threshold \<le> leadingEdge sn direction n
      then passTrack sn direction threshold a (Suc k) ns (m, nn)
      else if lessThanMinimal (gapTo sn direction threshold n) m
      then passTrack sn direction threshold a (Suc k) ns (Some (gapTo sn direction threshold n), Some k)
      else passTrack sn direction threshold a (Suc k) ns (m, nn))"

definition staysInPlace :: "safeNumber \<Rightarrow> Direction \<Rightarrow> real \<Rightarrow> string \<Rightarrow> HTMLElement \<Rightarrow> bool" where
  "staysInPlace sn direction threshold a n =
     (\<not> detectIsActiveDraggableNode n a \<and> \<not> threshold \<le> leadingEdge sn direction n)"

text \<open>The instance of \<open>safeNumber\<close> the examples use: the number itself.\<close>

definition exactNumber :: safeNumber where
  "exactNumber x = x"

text \<open>
  The siblings of the example of the pass: the dragged item \<open>d\<close>, then siblings with top
  0, 50 and 120, all 40 high.
\<close>

definition exampleSiblings :: "HTMLElement list" where
  "exampleSiblings =
     [plainItem 1 ''d'' 60 0 100 40, plainItem 2 ''x'' 0 0 100 40,
      plainItem 3 ''y'' 50 0 100 40, plainItem 4 ''z'' 120 0 100 40]"

section \<open>Container intersection (droppable.tsx, useIntersectionEffect)\<close>

text \<open>
  Reading a property of \<open>null\<close>, and \<open>getComputedStyle(null)\<close>, throw a \<open>TypeError\<close>.
\<close>

datatype error = TypeError

text \<open>
  The body of the pointer-move handler.  \<open>draggableNode\<close> is what
  \<open>getActiveDraggableNode\<close> finds and \<open>rootNode\<close> is \<open>rootRef.current\<close>; either may be
  \<open>null\<close>.  The result says whether \<open>onIntersect()\<close> was called.
\<close>

definition intersectionHandler ::
  "safeNumber \<Rightarrow> bool \<Rightarrow> bool \<Rightarrow> bool \<Rightarrow> HTMLElement option \<Rightarrow> HTMLElement option \<Rightarrow> error + bool"
where
  "intersectionHandler sn isSomeDragging isActiveGroup isActive draggableNode rootNode =
     (if \<not> isSomeDragging then Inr False
      else if \<not> isActiveGroup then Inr False
      else if isActive then Inr False
      else (case rootNode of
              None \<Rightarrow> Inl TypeError
            | Some rootEl \<Rightarrow>
               (case draggableNode of
                  None \<Rightarrow> Inl TypeError
                | Some drag \<Rightarrow>
                   (let droppableRect = rect rootEl;
                        draggableRect = rect drag;
                        draggableRectTop = sn (top draggableRect);
                        draggableRectLeft = sn (left draggableRect);
                        droppableRectTop = sn (top droppableRect);
                        droppableRectLeft = sn (left droppableRect);
                        droppableRectHeight = sn (height droppableRect);
                        droppableRectWidth = sn (width droppableRect);
                        isYaxesIntersected =
                          (draggableRectTop > droppableRectTop \<and>
                           draggableRectTop < droppableRectTop + droppableRectHeight);
                        isXaxesIntersected =
                          (draggableRectLeft > droppableRectLeft \<and>
                           draggableRectLeft < droppableRectLeft + droppableRectWidth)
                    in Inr (isYaxesIntersected \<and> isXaxesIntersected)))))"

text \<open>
  The words of the description: the centre of the dragged item's rectangle lies strictly
  inside the container's rectangle on both axes.
\<close>

definition centerStrictlyInside :: "DOMRect \<Rightarrow> DOMRect \<Rightarrow> bool" where
  "centerStrictlyInside item container =
     (top container < top item + height item / 2 \<and>
      top item + height item / 2 < top container + height container \<and>
      left container < left item + width item / 2 \<and>
      left item + width item / 2 < left container + width container)"

section \<open>Settling the dragged item (droppable.tsx, applyTargetNodeTransition)\<close>

text \<open>
  \<open>getDroppableContainerOffsets()\<close>.  \<open>droppableNode\<close> is what \<open>getActiveDroppableNode\<close>
  (of \<open>./utils\<close>, a lookup by identity attributes) returns for the active container.
\<close>

definition getDroppableContainerOffsets :: "safeNumber \<Rightarrow> HTMLElement option \<Rightarrow> error + real \<times> real" where
  "getDroppableContainerOffsets sn droppableNode =
     (case droppableNode of
        None \<Rightarrow> Inl TypeError
      | Some node \<Rightarrow>
          Inr (sn (top (rect node) + real_of_int (paddingTop (computedStyle node))),
               sn (left (rect node) + real_of_int (paddingLeft (computedStyle node)))))"

definition getVerticalDirectionOffset ::
  "safeNumber \<Rightarrow> HTMLElement option \<Rightarrow> ComputedStyle \<Rightarrow> real \<Rightarrow> real"
where
  "getVerticalDirectionOffset sn nearest targetNodeStyle droppableTop =
     (case nearest of
        Some n \<Rightarrow> sn (bottom (rect n) + real_of_int (marginTop targetNodeStyle))
      | None \<Rightarrow> droppableTop)"

definition getHorizontalDirectionOffset ::
  "safeNumber \<Rightarrow> HTMLElement option \<Rightarrow> ComputedStyle \<Rightarrow> real \<Rightarrow> real"
where
  "getHorizontalDirectionOffset sn nearest targetNodeStyle droppableTop =
     (case nearest of
        Some n \<Rightarrow> sn (left (rect n) + width (rect n) + real_of_int (marginLeft targetNodeStyle))
      | None \<Rightarrow> droppableTop)"

text \<open>
  How \<open>onComplete(targetNode)\<close> is called: at once, or by a timer after so many
  milliseconds.
\<close>

datatype Completion = Synchronous | AfterTimeout real

record Settlement =
  offset :: real
  settledNode :: HTMLElement
  completion :: Completion

text \<open>
  \<open>applyTargetNodeTransition(options)\<close>.  The result holds the local \<open>offset\<close>, the
  dragged element after the style writes, and how the completion callback is called.
\<close>

definition applyTargetNodeTransition ::
  "safeNumber \<Rightarrow> Direction \<Rightarrow> HTMLElement option \<Rightarrow> HTMLElement option \<Rightarrow> HTMLElement option \<Rightarrow>
   real \<Rightarrow> error + Settlement"
where
  "applyTargetNodeTransition sn direction droppableNode target nearest transitionTimeout =
     (case target of
        None \<Rightarrow> Inl TypeError
      | Some node \<Rightarrow>
         (let targetNodeStyle = computedStyle node;
              hasTransform = (transform targetNodeStyle \<noteq> ''none'');
              isVertical = (direction = vertical)
          in case getDroppableContainerOffsets sn droppableNode of
               Inl e \<Rightarrow> Inl e
             | Inr (droppableTop, droppableLeft) \<Rightarrow>
                (let off = (if isVertical
                            then getVerticalDirectionOffset sn nearest targetNodeStyle droppableTop
                            else getHorizontalDirectionOffset sn nearest targetNodeStyle droppableTop)
                 in if hasTransform then
                      Inr \<lparr> offset = off,
                            settledNode = setStyles node
                              [(''transition'', SettleTransition transitionTimeout),
                               (''transform'', Translate3d 0 0 0),
                               (''top'', Px (if isVertical then off else droppableTop)),
                               (''left'', Px (if isVertical then droppableLeft else off))],
                            completion = AfterTimeout transitionTimeout \<rparr>
                    else Inr \<lparr> offset = off, settledNode = node, completion = Synchronous \<rparr>)))"

text \<open>
  The example of the settle operation: a horizontal container at top 10 and left 200 with
  no padding, and a dragged element that carries a transform.
\<close>

definition exampleContainer :: HTMLElement where
  "exampleContainer =
     \<lparr> ref = 100, draggableIdAttr = None,
       rect = \<lparr>top = 10, left = 200, width = 600, height = 80\<rparr>,
       style = [], styleAttr = False,
       computedStyle = \<lparr>transform = ''none'', marginTop = 0, marginLeft = 0,
                        paddingTop = 0, paddingLeft = 0\<rparr> \<rparr>"

definition exampleDragged :: HTMLElement where
  "exampleDragged =
     \<lparr> ref = 1, draggableIdAttr = Some ''d'',
       rect = \<lparr>top = 300, left = 400, width = 100, height = 40\<rparr>,
       style = [(''transform'', Translate3d 50 20 0)], styleAttr = True,
       computedStyle = \<lparr>transform = ''matrix(1, 0, 0, 1, 50, 20)'', marginTop = 0, marginLeft = 0,
                        paddingTop = 0, paddingLeft = 0\<rparr> \<rparr>"

section \<open>Release and teardown (droppable.tsx, useMoveEndSensorEffect)\<close>

text \<open>
  A listener on \<open>document\<close> is an event type and the identity of the handler.
  \<open>addEventListener\<close> ignores a listener that is already registered;
  \<open>removeEventListener\<close> of one that is not registered does nothing.
\<close>

type_synonym listener = "string \<times> nat"

definition addEventListener :: "listener \<Rightarrow> listener list \<Rightarrow> listener list" where
  "addEventListener l ls = (if l \<in> set ls then ls else ls @ [l])"

definition removeEventListener :: "listener \<Rightarrow> listener list \<Rightarrow> listener list" where
  "removeEventListener l ls = removeAll l ls"

text \<open>
  An \<open>unsubscribe\<close> closure of one of the effects: the listeners it removes.  Its identity
  only serves to tell the closures apart in the trace.
\<close>

record Unsubscribe =
  unsubscribeId :: nat
  removes :: "listener list"

text \<open>What the trace of a session records: a closure of the registry ran, settlement began.\<close>

datatype Action = CalledUnsubscribe nat | BeganSettle

text \<open>
  The state the release handler works on: the listeners of \<open>document\<close>, the registry
  \<open>unsubscribers\<close>, \<open>nearestNodeRef.current\<close>, the installed
  \<open>handleTransitionEnd\<close> listeners (each is held as the node it is installed on, which
  is also the node it has captured), what the lookups of the dragged element and of the
  active container return, the result of the settle operation once it has run, and the
  trace.
\<close>

record Session =
  documentListeners :: "listener list"
  unsubscribers :: "Unsubscribe list"
  nearestNodeRef :: "HTMLElement option"
  transitionEndListeners :: "HTMLElement list"
  activeDraggableNode :: "HTMLElement option"
  activeDroppableNode :: "HTMLElement option"
  settled :: "(error + Settlement) option"
  trace :: "Action list"

definition callUnsubscribe :: "Unsubscribe \<Rightarrow> Session \<Rightarrow> Session" where
  "callUnsubscribe u s =
     s\<lparr>documentListeners := fold removeEventListener (removes u) (documentListeners s),
       trace := trace s @ [CalledUnsubscribe (unsubscribeId u)]\<rparr>"

text \<open>
  The unsubscribe sequence:
  \<^verbatim>\<open>unsubscribers.forEach(fn => fn()); unsubscribers.splice(0, unsubscribers.length);\<close>
\<close>

definition unsubscribeAll :: "Session \<Rightarrow> Session" where
  "unsubscribeAll s = (fold callUnsubscribe (unsubscribers s) s)\<lparr>unsubscribers := []\<rparr>"

text \<open>
  What each of the three listener effects does when it runs: the handler is added to
  \<open>document\<close> for both of its event types, and the closure that removes it again is
  pushed on the registry.
\<close>

definition subscribe :: "nat \<Rightarrow> string \<Rightarrow> string \<Rightarrow> Session \<Rightarrow> Session" where
  "subscribe handler type1 type2 s =
     s\<lparr>documentListeners :=
         addEventListener (type2, handler) (addEventListener (type1, handler) (documentListeners s)),
       unsubscribers :=
         unsubscribers s @ [\<lparr>unsubscribeId = handler, removes = [(type1, handler), (type2, handler)]\<rparr>]\<rparr>"

text \<open>\<open>applyTransition\<close>: look the dragged element up and settle it.\<close>

definition applyTransition ::
  "safeNumber \<Rightarrow> Direction \<Rightarrow> real \<Rightarrow> HTMLElement option \<Rightarrow> Session \<Rightarrow> Session"
where
  "applyTransition sn direction transitionTimeout nearest s =
     s\<lparr>settled := Some (applyTargetNodeTransition sn direction (activeDroppableNode s)
                          (activeDraggableNode s) nearest transitionTimeout),
       trace := trace s @ [BeganSettle]\<rparr>"

text \<open>\<open>handleEvent\<close>, the listener of \<open>mouseup\<close> and \<open>touchend\<close>.\<close>

definition handleEvent :: "safeNumber \<Rightarrow> Direction \<Rightarrow> real \<Rightarrow> Session \<Rightarrow> Session" where
  "handleEvent sn direction transitionTimeout s =
     (let s1 = unsubscribeAll s;
          nearest = nearestNodeRef s1;
          hasTransform = (case nearest of None \<Rightarrow> False
                          | Some n \<Rightarrow> transform (computedStyle n) \<noteq> ''none'')
      in case nearest of
           Some n \<Rightarrow>
             if hasTransform
             then s1\<lparr>transitionEndListeners := transitionEndListeners s1 @ [n]\<rparr>
             else applyTransition sn direction transitionTimeout nearest s1
         | None \<Rightarrow> applyTransition sn direction transitionTimeout nearest s1)"

text \<open>
  A \<open>transitionend\<close> event: its target, its property name, and the elements it passes
  (the target and its ancestors), whose listeners it reaches.
\<close>

record TransitionEvent =
  eventTarget :: nat
  propertyName :: string
  eventPath :: "nat list"

text \<open>\<open>handleTransitionEnd\<close>, installed on \<open>nearestNode\<close>.\<close>

definition handleTransitionEnd ::
  "safeNumber \<Rightarrow> Direction \<Rightarrow> real \<Rightarrow> HTMLElement \<Rightarrow> TransitionEvent \<Rightarrow> Session \<Rightarrow> Session"
where
  "handleTransitionEnd sn direction transitionTimeout nearest e s =
     (if eventTarget e = ref nearest \<and> propertyName e = ''transform''
      then applyTransition sn direction transitionTimeout (Some nearest)
             (s\<lparr>transitionEndListeners := remove1 nearest (transitionEndListeners s)\<rparr>)
      else s)"

definition dispatchTransitionEnd ::
  "safeNumber \<Rightarrow> Direction \<Rightarrow> real \<Rightarrow> TransitionEvent \<Rightarrow> Session \<Rightarrow> Session"
where
  "dispatchTransitionEnd sn direction transitionTimeout e s =
     fold (\<lambda>nearest st. if ref nearest \<in> set (eventPath e)
                          then handleTransitionEnd sn direction transitionTimeout nearest e st
                          else st)
          (transitionEndListeners s) s"

text \<open>
  The example of a release: the move sensor (handler 1), the release sensor (handler 2) and
  the intersection sensor (handler 3) of a container have subscribed, and \<open>nearest\<close> is
  the nearest node.
\<close>

definition exampleSession :: "HTMLElement \<Rightarrow> Session" where
  "exampleSession nearest =
     subscribe 3 ''mousemove'' ''touchmove''
       (subscribe 2 ''mouseup'' ''touchend''
          (subscribe 1 ''mousemove'' ''touchmove''
             \<lparr> documentListeners = [], unsubscribers = [],
               nearestNodeRef = Some nearest,
               transitionEndListeners = [],
               activeDraggableNode = Some exampleDragged,
               activeDroppableNode = Some exampleContainer,
               settled = None,
               trace = [] \<rparr>))"

definition slidingSibling :: HTMLElement where
  "slidingSibling =
     (plainItem 3 ''y'' 50 0 100 40)
       \<lparr>computedStyle := \<lparr>transform = ''matrix(1, 0, 0, 1, 0, 12)'', marginTop = 0, marginLeft = 0,
                          paddingTop = 0, paddingLeft = 0\<rparr>\<rparr>"

text \<open>
  The words of the description of the release: a computed transform is an identity
  transform when it is \<open>none\<close> or the identity matrix, which is what the browser reports
  for an element styled with a transform that moves nothing (\<open>translateZ(0)\<close>,
  \<open>translate3d(0px, 0px, 0px)\<close>).
\<close>

definition isIdentityTransform :: "string \<Rightarrow> bool" where
  "isIdentityTransform t =
     (t = ''none'' \<or> t = ''matrix(1, 0, 0, 1, 0, 0)'' \<or>
      t = ''matrix3d(1, 0, 0, 0, 0, 1, 0, 0, 0, 0, 1, 0, 0, 0, 0, 1)'')"

text \<open>A sibling at rest whose computed transform is the identity matrix.\<close>

definition restingSibling :: HTMLElement where
  "restingSibling =
     (plainItem 3 ''y'' 50 0 100 40)
       \<lparr>computedStyle := \<lparr>transform = ''matrix(1, 0, 0, 1, 0, 0)'', marginTop = 0, marginLeft = 0,
                          paddingTop = 0, paddingLeft = 0\<rparr>\<rparr>"

section \<open>Placeholder (droppable.tsx, usePlaceholderEffect)\<close>

text \<open>
  A child of the container is an item or a filler \<open>div\<close> created by the effect.
  \<open>scope.removePlaceholder\<close> is either the empty function or the closure that detaches
  the placeholder it has captured.
\<close>

datatype ChildNode = Item HTMLElement | Filler HTMLElement

datatype RemovePlaceholder = Noop | Detach nat

fun childRef :: "ChildNode \<Rightarrow> nat" where
  "childRef (Item e) = ref e"
| "childRef (Filler e) = ref e"

fun isFiller :: "ChildNode \<Rightarrow> bool" where
  "isFiller (Item e) = False"
| "isFiller (Filler e) = True"

text \<open>
  The container (\<open>rootRef.current\<close>, which may be \<open>null\<close>) with its children in order,
  the current \<open>scope.removePlaceholder\<close>, how often \<open>onInsertPlaceholder\<close> has been
  called, and the identity the next created element gets.
\<close>

record PlaceholderState =
  container :: "ChildNode list option"
  removePlaceholder :: RemovePlaceholder
  insertNotifications :: nat
  nextRef :: nat

text \<open>\<open>document.createElement('div')\<close>: a new element outside the document.\<close>

definition createElement :: "nat \<Rightarrow> HTMLElement" where
  "createElement r =
     \<lparr> ref = r, draggableIdAttr = None,
       rect = \<lparr>top = 0, left = 0, width = 0, height = 0\<rparr>,
       style = [], styleAttr = False,
       computedStyle = \<lparr>transform = ''none'', marginTop = 0, marginLeft = 0,
                        paddingTop = 0, paddingLeft = 0\<rparr> \<rparr>"

text \<open>The body of the layout effect of \<open>usePlaceholderEffect\<close>.\<close>

definition insertPlaceholder :: "bool \<Rightarrow> real \<Rightarrow> real \<Rightarrow> PlaceholderState \<Rightarrow> error + PlaceholderState" where
  "insertPlaceholder isDragging nodeWidth nodeHeight s =
     (if isDragging then
        (let placeholder = createElement (nextRef s);
             s1 = s\<lparr>nextRef := Suc (nextRef s), removePlaceholder := Detach (ref placeholder)\<rparr>;
             styled = setStyles placeholder
                        [(''width'', Px nodeWidth), (''height'', Px nodeHeight),
                         (''flex'', Raw ''0 0 auto'')]
         in case container s1 of
              None \<Rightarrow> Inl TypeError
            | Some children \<Rightarrow>
                Inr (s1\<lparr>container := Some (children @ [Filler styled]),
                        insertNotifications := Suc (insertNotifications s1)\<rparr>))
      else Inr s)"

text \<open>
  \<open>scope.removePlaceholder()\<close>.  A placeholder that is not a child of the container has
  no \<open>parentElement\<close>.
\<close>

definition callRemovePlaceholder :: "PlaceholderState \<Rightarrow> error + PlaceholderState" where
  "callRemovePlaceholder s =
     (case removePlaceholder s of
        Noop \<Rightarrow> Inr s
      | Detach r \<Rightarrow>
          (case container s of
             None \<Rightarrow> Inl TypeError
           | Some children \<Rightarrow>
               if \<exists>c \<in> set children. childRef c = r
               then Inr (s\<lparr>container := Some (filter (\<lambda>c. childRef c \<noteq> r) children),
                           removePlaceholder := Noop\<rparr>)
               else Inl TypeError))"

definition fillers :: "PlaceholderState \<Rightarrow> nat" where
  "fillers s = (case container s of None \<Rightarrow> 0 | Some children \<Rightarrow> length (filter isFiller children))"

section \<open>Threshold\<close>

text \<open>
  Claim C9.  On each axis \<open>getThreshold\<close> returns the leading edge of the rectangle when
  that coordinate is positive; otherwise it returns 0 when the pointer is in the first half
  of the viewport on that axis, and the viewport extent when it is not.  For the rectangle
  with top and left -5, the pointer at (10, 10) and a viewport of 1000 by 800 both thresholds
  are 0.
\<close>

theorem getThreshold_per_axis:
  "(0 < top r \<longrightarrow> thresholdY (getThreshold w r p) = top r) \<and>
   (\<not> 0 < top r \<and> clientY p < innerHeight w / 2 \<longrightarrow> thresholdY (getThreshold w r p) = 0) \<and>
   (\<not> 0 < top r \<and> \<not> clientY p < innerHeight w / 2 \<longrightarrow>
      thresholdY (getThreshold w r p) = innerHeight w) \<and>
   (0 < left r \<longrightarrow> thresholdX (getThreshold w r p) = left r) \<and>
   (\<not> 0 < left r \<and> clientX p < innerWidth w / 2 \<longrightarrow> thresholdX (getThreshold w r p) = 0) \<and>
   (\<not> 0 < left r \<and> \<not> clientX p < innerWidth w / 2 \<longrightarrow>
      thresholdX (getThreshold w r p) = innerWidth w) \<and>
   getThreshold \<lparr>innerWidth = 1000, innerHeight = 800\<rparr>
       \<lparr>top = - 5, left = - 5, width = wd, height = ht\<rparr> \<lparr>clientX = 10, clientY = 10\<rparr>
     = \<lparr>thresholdY = 0, thresholdX = 0\<rparr>"
  by (simp add: getThreshold_def)

theorem getThreshold_per_axis_witness:
  "thresholdY (getThreshold \<lparr>innerWidth = 1000, innerHeight = 800\<rparr>
       \<lparr>top = 30, left = - 5, width = 100, height = 40\<rparr> \<lparr>clientX = 600, clientY = 10\<rparr>) = 30 \<and>
   thresholdX (getThreshold \<lparr>innerWidth = 1000, innerHeight = 800\<rparr>
       \<lparr>top = 30, left = - 5, width = 100, height = 40\<rparr> \<lparr>clientX = 600, clientY = 10\<rparr>) = 1000 \<and>
   thresholdY (getThreshold \<lparr>innerWidth = 1000, innerHeight = 800\<rparr>
       \<lparr>top = - 5, left = - 5, width = 100, height = 40\<rparr> \<lparr>clientX = 10, clientY = 10\<rparr>) = 0"
  using getThreshold_per_axis
    [of "\<lparr>top = 30, left = - 5, width = 100, height = 40\<rparr>"
        "\<lparr>innerWidth = 1000, innerHeight = 800\<rparr>" "\<lparr>clientX = 600, clientY = 10\<rparr>" 100 40]
  by simp

section \<open>The commit descriptor\<close>

lemma findIndex_ge: "- 1 \<le> findIndex p xs"
  by (induction xs) (auto simp: Let_def)

lemma findIndex_absent: "findIndex p xs = - 1 \<longleftrightarrow> (\<forall>x\<in>set xs. \<not> p x)"
proof (induction xs)
  case Nil
  then show ?case by simp
next
  case (Cons x xs)
  then show ?case
    using findIndex_ge [of p xs] by (auto simp: Let_def)
qed

lemma findIndex_present:
  "findIndex p xs \<noteq> - 1 \<Longrightarrow>
     0 \<le> findIndex p xs \<and> nat (findIndex p xs) < length xs \<and> p (xs ! nat (findIndex p xs)) \<and>
     (\<forall>j < nat (findIndex p xs). \<not> p (xs ! j))"
proof (induction xs)
  case Nil
  then show ?case by simp
next
  case (Cons x xs)
  show ?case
  proof (cases "p x")
    case True
    then show ?thesis by simp
  next
    case False
    with Cons.prems have ne: "findIndex p xs \<noteq> - 1"
      by (auto simp: Let_def split: if_splits)
    from Cons.IH [OF ne] have ih: "0 \<le> findIndex p xs" "nat (findIndex p xs) < length xs"
      "p (xs ! nat (findIndex p xs))" "\<forall>j < nat (findIndex p xs). \<not> p (xs ! j)"
      by auto
    have eq: "findIndex p (x # xs) = findIndex p xs + 1"
      using False ne by (simp add: Let_def)
    have n: "nat (findIndex p xs + 1) = Suc (nat (findIndex p xs))"
      using ih(1) by simp
    show ?thesis
      unfolding eq n using ih False
      by (auto simp: nth_Cons split: nat.splits)
  qed
qed

lemma fold_countStep_vertical:
  "fold (countStep vertical tr) nodes k =
     k + int (length (filter (\<lambda>n. top (rect n) + height (rect n) < top tr + height tr) nodes))"
  by (induction nodes arbitrary: k) (auto simp: countStep_def)

lemma fold_countStep_horizontal:
  "fold (countStep horizontal tr) nodes k =
     k + int (length (filter (\<lambda>n. left (rect n) + width (rect n) < left tr + width tr) nodes))"
  by (induction nodes arbitrary: k) (auto simp: countStep_def)

text \<open>
  Claim C4.  In the descriptor reported at drag end, \<open>sourceIdx\<close> is the index of the first
  node of the container's node list that is the dragged item, and -1 when there is none;
  \<open>isMoving\<close> holds exactly when \<open>sourceIdx\<close> is -1; \<open>destinationIdx\<close> is the number
  of scanned nodes whose trailing edge on the active axis lies before the trailing edge of
  the dropped item.  In a vertical container of three items \<open>a\<close>, \<open>b\<close>, \<open>c\<close>, each 40
  high, where \<open>a\<close> has been dropped after \<open>b\<close> (\<open>b\<close> at top 0, \<open>a\<close> settled at top 40,
  \<open>c\<close> shifted to top 80), the descriptor has \<open>sourceIdx = 0\<close>, \<open>destinationIdx = 1\<close>
  and \<open>isMoving = false\<close>.
\<close>

theorem handleDragEnd_descriptor:
  "(sourceIdx (handleDragEnd d a dr g nodes t) = - 1 \<longleftrightarrow>
      (\<forall>n\<in>set nodes. \<not> detectIsActiveDraggableNode n a)) \<and>
   (sourceIdx (handleDragEnd d a dr g nodes t) \<noteq> - 1 \<longrightarrow>
      0 \<le> sourceIdx (handleDragEnd d a dr g nodes t) \<and>
      nat (sourceIdx (handleDragEnd d a dr g nodes t)) < length nodes \<and>
      detectIsActiveDraggableNode (nodes ! nat (sourceIdx (handleDragEnd d a dr g nodes t))) a \<and>
      (\<forall>j < nat (sourceIdx (handleDragEnd d a dr g nodes t)).
          \<not> detectIsActiveDraggableNode (nodes ! j) a)) \<and>
   (isMoving (handleDragEnd d a dr g nodes t) \<longleftrightarrow>
      sourceIdx (handleDragEnd d a dr g nodes t) = - 1) \<and>
   destinationIdx (handleDragEnd vertical a dr g nodes t) =
     int (length (filter (\<lambda>n. top (rect n) + height (rect n) < top (rect t) + height (rect t)) nodes)) \<and>
   destinationIdx (handleDragEnd horizontal a dr g nodes t) =
     int (length (filter (\<lambda>n. left (rect n) + width (rect n) < left (rect t) + width (rect t)) nodes)) \<and>
   sourceIdx (handleDragEnd vertical ''a'' ''list'' ''group''
       [plainItem 1 ''a'' 40 0 100 40, plainItem 2 ''b'' 0 0 100 40, plainItem 3 ''c'' 80 0 100 40]
       (plainItem 1 ''a'' 40 0 100 40)) = 0 \<and>
   destinationIdx (handleDragEnd vertical ''a'' ''list'' ''group''
       [plainItem 1 ''a'' 40 0 100 40, plainItem 2 ''b'' 0 0 100 40, plainItem 3 ''c'' 80 0 100 40]
       (plainItem 1 ''a'' 40 0 100 40)) = 1 \<and>
   \<not> isMoving (handleDragEnd vertical ''a'' ''list'' ''group''
       [plainItem 1 ''a'' 40 0 100 40, plainItem 2 ''b'' 0 0 100 40, plainItem 3 ''c'' 80 0 100 40]
       (plainItem 1 ''a'' 40 0 100 40))"
proof -
  let ?p = "\<lambda>x. detectIsActiveDraggableNode x a"
  have src: "sourceIdx (handleDragEnd d a dr g nodes t) = findIndex ?p nodes" for d
    by (simp add: handleDragEnd_def Let_def)
  have mov: "isMoving (handleDragEnd d a dr g nodes t) = (findIndex ?p nodes = - 1)"
    by (simp add: handleDragEnd_def Let_def)
  have dst: "destinationIdx (handleDragEnd d a dr g nodes t) = fold (countStep d (rect t)) nodes 0" for d
    by (simp add: handleDragEnd_def Let_def)
  have 1: "sourceIdx (handleDragEnd d a dr g nodes t) = - 1 \<longleftrightarrow>
      (\<forall>n\<in>set nodes. \<not> detectIsActiveDraggableNode n a)"
    unfolding src by (rule findIndex_absent)
  have 2: "sourceIdx (handleDragEnd d a dr g nodes t) \<noteq> - 1 \<longrightarrow>
      0 \<le> sourceIdx (handleDragEnd d a dr g nodes t) \<and>
      nat (sourceIdx (handleDragEnd d a dr g nodes t)) < length nodes \<and>
      detectIsActiveDraggableNode (nodes ! nat (sourceIdx (handleDragEnd d a dr g nodes t))) a \<and>
      (\<forall>j < nat (sourceIdx (handleDragEnd d a dr g nodes t)).
          \<not> detectIsActiveDraggableNode (nodes ! j) a)"
    unfolding src using findIndex_present [of ?p nodes] by blast
  have 3: "isMoving (handleDragEnd d a dr g nodes t) \<longleftrightarrow>
      sourceIdx (handleDragEnd d a dr g nodes t) = - 1"
    unfolding src mov ..
  have 4: "destinationIdx (handleDragEnd vertical a dr g nodes t) =
     int (length (filter (\<lambda>n. top (rect n) + height (rect n) < top (rect t) + height (rect t)) nodes))"
    unfolding dst by (simp add: fold_countStep_vertical)
  have 5: "destinationIdx (handleDragEnd horizontal a dr g nodes t) =
     int (length (filter (\<lambda>n. left (rect n) + width (rect n) < left (rect t) + width (rect t)) nodes))"
    unfolding dst by (simp add: fold_countStep_horizontal)
  have 6: "sourceIdx (handleDragEnd vertical ''a'' ''list'' ''group''
       [plainItem 1 ''a'' 40 0 100 40, plainItem 2 ''b'' 0 0 100 40, plainItem 3 ''c'' 80 0 100 40]
       (plainItem 1 ''a'' 40 0 100 40)) = 0"
    by (simp add: handleDragEnd_def Let_def plainItem_def detectIsActiveDraggableNode_def)
  have 7: "destinationIdx (handleDragEnd vertical ''a'' ''list'' ''group''
       [plainItem 1 ''a'' 40 0 100 40, plainItem 2 ''b'' 0 0 100 40, plainItem 3 ''c'' 80 0 100 40]
       (plainItem 1 ''a'' 40 0 100 40)) = 1"
    by (simp add: handleDragEnd_def Let_def plainItem_def countStep_def)
  have 8: "\<not> isMoving (handleDragEnd vertical ''a'' ''list'' ''group''
       [plainItem 1 ''a'' 40 0 100 40, plainItem 2 ''b'' 0 0 100 40, plainItem 3 ''c'' 80 0 100 40]
       (plainItem 1 ''a'' 40 0 100 40))"
    by (simp add: handleDragEnd_def Let_def plainItem_def detectIsActiveDraggableNode_def)
  from 1 2 3 4 5 6 7 8 show ?thesis by blast
qed

theorem handleDragEnd_descriptor_witness:
  "sourceIdx (handleDragEnd vertical ''x'' ''b'' ''g''
       [plainItem 1 ''p'' 0 0 100 40, plainItem 2 ''q'' 40 0 100 40] (plainItem 9 ''x'' 80 0 100 40)) = - 1 \<and>
   isMoving (handleDragEnd vertical ''x'' ''b'' ''g''
       [plainItem 1 ''p'' 0 0 100 40, plainItem 2 ''q'' 40 0 100 40] (plainItem 9 ''x'' 80 0 100 40)) \<and>
   destinationIdx (handleDragEnd vertical ''x'' ''b'' ''g''
       [plainItem 1 ''p'' 0 0 100 40, plainItem 2 ''q'' 40 0 100 40] (plainItem 9 ''x'' 80 0 100 40)) = 2"
  using handleDragEnd_descriptor [of vertical "''x''" "''b''" "''g''"
       "[plainItem 1 ''p'' 0 0 100 40, plainItem 2 ''q'' 40 0 100 40]" "plainItem 9 ''x'' 80 0 100 40"]
  by (simp add: plainItem_def detectIsActiveDraggableNode_def)

text \<open>
  Claim C10.  The comparison of trailing edges is strict: a scanned node whose trailing
  edge equals that of the dropped item adds nothing to \<open>destinationIdx\<close>.  In particular
  the dropped item itself, when it is in the scanned node list, adds nothing.
\<close>

theorem destinationIdx_strict:
  "(top (rect n) + height (rect n) = top (rect t) + height (rect t) \<longrightarrow>
      destinationIdx (handleDragEnd vertical a dr g (xs @ n # ys) t) =
      destinationIdx (handleDragEnd vertical a dr g (xs @ ys) t)) \<and>
   (left (rect n) + width (rect n) = left (rect t) + width (rect t) \<longrightarrow>
      destinationIdx (handleDragEnd horizontal a dr g (xs @ n # ys) t) =
      destinationIdx (handleDragEnd horizontal a dr g (xs @ ys) t)) \<and>
   destinationIdx (handleDragEnd d a dr g (xs @ t # ys) t) =
     destinationIdx (handleDragEnd d a dr g (xs @ ys) t)"
proof -
  have dst: "destinationIdx (handleDragEnd d a dr g nodes t) = fold (countStep d (rect t)) nodes 0" for d nodes
    by (simp add: handleDragEnd_def Let_def)
  have v: "top (rect n) + height (rect n) = top (rect t) + height (rect t) \<longrightarrow>
      fold (countStep vertical (rect t)) (xs @ n # ys) 0 = fold (countStep vertical (rect t)) (xs @ ys) 0"
    by (simp add: fold_countStep_vertical countStep_def)
  have h: "left (rect n) + width (rect n) = left (rect t) + width (rect t) \<longrightarrow>
      fold (countStep horizontal (rect t)) (xs @ n # ys) 0 = fold (countStep horizontal (rect t)) (xs @ ys) 0"
    by (simp add: fold_countStep_horizontal countStep_def)
  have s: "fold (countStep d (rect t)) (xs @ t # ys) 0 = fold (countStep d (rect t)) (xs @ ys) 0"
    by (cases d) (simp_all add: fold_countStep_vertical fold_countStep_horizontal countStep_def)
  from v h s show ?thesis
    unfolding dst by blast
qed



theorem destinationIdx_strict_witness:
  "destinationIdx (handleDragEnd vertical ''a'' ''list'' ''group''
       ([plainItem 2 ''b'' 0 0 100 40] @ plainItem 4 ''e'' 60 0 100 20 # [plainItem 3 ''c'' 80 0 100 40])
       (plainItem 1 ''a'' 40 0 100 40)) = 1 \<and>
   destinationIdx (handleDragEnd vertical ''a'' ''list'' ''group''
       ([plainItem 2 ''b'' 0 0 100 40] @ plainItem 1 ''a'' 40 0 100 40 # [plainItem 3 ''c'' 80 0 100 40])
       (plainItem 1 ''a'' 40 0 100 40)) = 1"
proof -
  have eq: "top (rect (plainItem 4 ''e'' 60 0 100 20)) + height (rect (plainItem 4 ''e'' 60 0 100 20)) =
            top (rect (plainItem 1 ''a'' 40 0 100 40)) + height (rect (plainItem 1 ''a'' 40 0 100 40))"
    by (simp add: plainItem_def)
  have base: "destinationIdx (handleDragEnd vertical ''a'' ''list'' ''group''
       ([plainItem 2 ''b'' 0 0 100 40] @ [plainItem 3 ''c'' 80 0 100 40])
       (plainItem 1 ''a'' 40 0 100 40)) = 1"
    by (simp add: handleDragEnd_def Let_def plainItem_def countStep_def)
  show ?thesis
    using eq base
      destinationIdx_strict [of "plainItem 4 ''e'' 60 0 100 20" "plainItem 1 ''a'' 40 0 100 40"
        "''a''" "''list''" "''group''" "[plainItem 2 ''b'' 0 0 100 40]" "[plainItem 3 ''c'' 80 0 100 40]" vertical]
    by simp
qed

section \<open>The reorder pass\<close>

lemma passTrack_spec:
  "passTrack sn d thr a k ns (m, nn) = (m', nn') \<Longrightarrow>
   (m' = m \<and> nn' = nn \<and>
      (\<forall>i<length ns. staysInPlace sn d thr a (ns ! i) \<longrightarrow> \<not> lessThanMinimal (gapTo sn d thr (ns ! i)) m)) \<or>
   (\<exists>j<length ns. nn' = Some (k + j) \<and> m' = Some (gapTo sn d thr (ns ! j)) \<and>
      staysInPlace sn d thr a (ns ! j) \<and> lessThanMinimal (gapTo sn d thr (ns ! j)) m \<and>
      (\<forall>i<length ns. staysInPlace sn d thr a (ns ! i) \<longrightarrow>
          gapTo sn d thr (ns ! j) \<le> gapTo sn d thr (ns ! i) \<and>
          (i < j \<longrightarrow> gapTo sn d thr (ns ! j) < gapTo sn d thr (ns ! i))))"
proof (induction ns arbitrary: k m nn)
  case Nil
  then show ?case by simp
next
  case (Cons n ns)
  let ?g = "gapTo sn d thr"
  let ?c = "staysInPlace sn d thr a"
  show ?case
  proof (cases "?c n")
    case False
    then have "passTrack sn d thr a (Suc k) ns (m, nn) = (m', nn')"
      using Cons.prems by (auto simp: staysInPlace_def)
    from Cons.IH [OF this] show ?thesis
    proof (elim disjE exE conjE)
      assume "m' = m" "nn' = nn"
        "\<forall>i<length ns. ?c (ns ! i) \<longrightarrow> \<not> lessThanMinimal (?g (ns ! i)) m"
      then show ?thesis using False
        by (auto simp: nth_Cons split: nat.splits)
    next
      fix j assume j: "j < length ns" "nn' = Some (Suc k + j)" "m' = Some (?g (ns ! j))"
        "?c (ns ! j)" "lessThanMinimal (?g (ns ! j)) m"
        "\<forall>i<length ns. ?c (ns ! i) \<longrightarrow> ?g (ns ! j) \<le> ?g (ns ! i) \<and> (i < j \<longrightarrow> ?g (ns ! j) < ?g (ns ! i))"
      have "\<forall>i<length (n # ns). ?c ((n # ns) ! i) \<longrightarrow>
              ?g ((n # ns) ! Suc j) \<le> ?g ((n # ns) ! i) \<and> (i < Suc j \<longrightarrow> ?g ((n # ns) ! Suc j) < ?g ((n # ns) ! i))"
        using j(6) False by (auto simp: nth_Cons split: nat.splits)
      then show ?thesis using j
        by (intro disjI2 exI [of _ "Suc j"]) simp
    qed
  next
    case True
    show ?thesis
    proof (cases "lessThanMinimal (?g n) m")
      case lt: True
      then have "passTrack sn d thr a (Suc k) ns (Some (?g n), Some k) = (m', nn')"
        using Cons.prems True by (auto simp: staysInPlace_def)
      from Cons.IH [OF this] show ?thesis
      proof (elim disjE exE conjE)
        assume a: "m' = Some (?g n)" "nn' = Some k"
          "\<forall>i<length ns. ?c (ns ! i) \<longrightarrow> \<not> lessThanMinimal (?g (ns ! i)) (Some (?g n))"
        have "\<forall>i<length (n # ns). ?c ((n # ns) ! i) \<longrightarrow>
              ?g ((n # ns) ! 0) \<le> ?g ((n # ns) ! i) \<and> (i < 0 \<longrightarrow> ?g ((n # ns) ! 0) < ?g ((n # ns) ! i))"
          using a(3) by (auto simp: nth_Cons lessThanMinimal_def split: nat.splits)
        then show ?thesis using a True lt
          by (intro disjI2 exI [of _ 0]) simp
      next
        fix j assume j: "j < length ns" "nn' = Some (Suc k + j)" "m' = Some (?g (ns ! j))"
          "?c (ns ! j)" "lessThanMinimal (?g (ns ! j)) (Some (?g n))"
          "\<forall>i<length ns. ?c (ns ! i) \<longrightarrow> ?g (ns ! j) \<le> ?g (ns ! i) \<and> (i < j \<longrightarrow> ?g (ns ! j) < ?g (ns ! i))"
        have lt': "?g (ns ! j) < ?g n" using j(5) by (simp add: lessThanMinimal_def)
        have "\<forall>i<length (n # ns). ?c ((n # ns) ! i) \<longrightarrow>
              ?g ((n # ns) ! Suc j) \<le> ?g ((n # ns) ! i) \<and> (i < Suc j \<longrightarrow> ?g ((n # ns) ! Suc j) < ?g ((n # ns) ! i))"
          using j(6) lt' by (auto simp: nth_Cons split: nat.splits)
        moreover have "lessThanMinimal (?g (ns ! j)) m"
          using lt lt' by (auto simp: lessThanMinimal_def split: option.splits)
        ultimately show ?thesis using j
          by (intro disjI2 exI [of _ "Suc j"]) simp
      qed
    next
      case nlt: False
      then have "passTrack sn d thr a (Suc k) ns (m, nn) = (m', nn')"
        using Cons.prems by (simp split: if_splits)
      from Cons.IH [OF this] show ?thesis
      proof (elim disjE exE conjE)
        assume "m' = m" "nn' = nn"
          "\<forall>i<length ns. ?c (ns ! i) \<longrightarrow> \<not> lessThanMinimal (?g (ns ! i)) m"
        then show ?thesis using nlt
          by (auto simp: nth_Cons split: nat.splits)
      next
        fix j assume j: "j < length ns" "nn' = Some (Suc k + j)" "m' = Some (?g (ns ! j))"
          "?c (ns ! j)" "lessThanMinimal (?g (ns ! j)) m"
          "\<forall>i<length ns. ?c (ns ! i) \<longrightarrow> ?g (ns ! j) \<le> ?g (ns ! i) \<and> (i < j \<longrightarrow> ?g (ns ! j) < ?g (ns ! i))"
        have lt': "?g (ns ! j) < ?g n"
          using j(5) nlt by (auto simp: lessThanMinimal_def split: option.splits)
        have "\<forall>i<length (n # ns). ?c ((n # ns) ! i) \<longrightarrow>
              ?g ((n # ns) ! Suc j) \<le> ?g ((n # ns) ! i) \<and> (i < Suc j \<longrightarrow> ?g ((n # ns) ! Suc j) < ?g ((n # ns) ! i))"
          using j(6) lt' by (auto simp: nth_Cons split: nat.splits)
        then show ?thesis using j
          by (intro disjI2 exI [of _ "Suc j"]) simp
      qed
    qed
  qed
qed


lemma shiftClosure_at:
  "shiftClosure sn d nh nw tt tf
       \<lparr>idx = length pre, readTop = sn (top (rect n)), readLeft = sn (left (rect n)),
        readThreshold = getThreshold w tr p\<rparr>
       \<lparr>elements = pre @ n # ns, minimalDiff = m, nearestNode = nn\<rparr> =
     (if axisThreshold w d tr p \<le> leadingEdge sn d n
      then \<lparr>elements = pre @ setStyles n (shiftStyles d nh nw tt tf) # ns, minimalDiff = m, nearestNode = nn\<rparr>
      else if lessThanMinimal (gapTo sn d (axisThreshold w d tr p) n) m
      then \<lparr>elements = pre @ removeStyles n [''transform''] # ns,
            minimalDiff = Some (gapTo sn d (axisThreshold w d tr p) n), nearestNode = Some (length pre)\<rparr>
      else \<lparr>elements = pre @ removeStyles n [''transform''] # ns, minimalDiff = m, nearestNode = nn\<rparr>)"
  by (cases d)
     (simp_all add: shiftClosure_def axisThreshold_def leadingEdge_def gapTo_def shiftStyles_def Let_def)

lemma run_closures:
  "length pre = k \<Longrightarrow>
   fold (\<lambda>fn st. fn st)
     (map (shiftClosure sn d nh nw tt tf)
        (map (\<lambda>(i, node). \<lparr> idx = i, readTop = sn (top (rect node)), readLeft = sn (left (rect node)),
                          readThreshold = getThreshold w tr p \<rparr>)
         (filter (\<lambda>(i, node). \<not> detectIsActiveDraggableNode node a) (enumerate k ns))))
     \<lparr>elements = pre @ ns, minimalDiff = m, nearestNode = nn\<rparr> =
   \<lparr>elements = pre @ map (passEffect sn d (axisThreshold w d tr p) a (shiftStyles d nh nw tt tf)) ns,
    minimalDiff = fst (passTrack sn d (axisThreshold w d tr p) a k ns (m, nn)),
    nearestNode = snd (passTrack sn d (axisThreshold w d tr p) a k ns (m, nn))\<rparr>"
proof (induction ns arbitrary: k pre m nn)
  case Nil
  then show ?case by simp
next
  case (Cons n ns)
  have len: "length (pre @ [x]) = Suc k" for x
    using Cons.prems by simp
  show ?case
  proof (cases "detectIsActiveDraggableNode n a")
    case True
    then show ?thesis
      using Cons.IH [OF len, of n m nn] by (simp add: passEffect_def)
  next
    case False
    note act = this
    show ?thesis
    proof (cases "axisThreshold w d tr p \<le> leadingEdge sn d n")
      case True
      then show ?thesis
        using act Cons.IH [OF len, of "setStyles n (shiftStyles d nh nw tt tf)" m nn]
          shiftClosure_at [of sn d nh nw tt tf pre n w tr p ns m nn] Cons.prems
        by (simp add: passEffect_def)
    next
      case False
      note stay = this
      show ?thesis
      proof (cases "lessThanMinimal (gapTo sn d (axisThreshold w d tr p) n) m")
        case True
        then show ?thesis
          using act stay
            Cons.IH [OF len, of "removeStyles n [''transform'']"
              "Some (gapTo sn d (axisThreshold w d tr p) n)" "Some k"]
            shiftClosure_at [of sn d nh nw tt tf pre n w tr p ns m nn] Cons.prems
          by (simp add: passEffect_def)
      next
        case False
        then show ?thesis
          using act stay Cons.IH [OF len, of "removeStyles n [''transform'']" m nn]
            shiftClosure_at [of sn d nh nw tt tf pre n w tr p ns m nn] Cons.prems
          by (simp add: passEffect_def)
      qed
    qed
  qed
qed

lemma transformNodesByTarget_eq:
  "transformNodesByTarget sn w d tr p nodes a nh nw tto tfo =
   \<lparr>elements = map (passEffect sn d (axisThreshold w d tr p) a
                     (shiftStyles d nh nw (case tto of None \<Rightarrow> 0 | Some t \<Rightarrow> t)
                                          (case tfo of None \<Rightarrow> [] | Some f \<Rightarrow> f))) nodes,
    minimalDiff = fst (passTrack sn d (axisThreshold w d tr p) a 0 nodes (None, None)),
    nearestNode = snd (passTrack sn d (axisThreshold w d tr p) a 0 nodes (None, None))\<rparr>"
  using run_closures [of "[]" 0 sn d nh nw _ _ w tr p a nodes None None]
  by (simp add: transformNodesByTarget_def readNodes_def Let_def)


lemma map_of_setStyles_shift:
  "map_of (style (setStyles n (shiftStyles d nh nw tt tf))) ''transform'' =
     Some (case d of vertical \<Rightarrow> Translate3d 0 nh 0 | horizontal \<Rightarrow> Translate3d nw 0 0) \<and>
   map_of (style (setStyles n (shiftStyles d nh nw tt tf))) ''transition'' = Some (ShiftTransition tt tf)"
  by (simp add: setStyles_def shiftStyles_def setProperty_def namesMap_def update_conv)

lemma map_of_removeStyles_transform:
  "map_of (style (removeStyles n [''transform''])) ''transform'' = None"
  by (simp add: removeStyles_def removeStyleAttrIfEmpty_def delete_conv)

lemma nearest_spec:
  assumes "nn' = snd (passTrack sn d thr a 0 nodes (None, None))"
  shows "(nn' = None \<longleftrightarrow> (\<forall>i<length nodes. \<not> staysInPlace sn d thr a (nodes ! i))) \<and>
    (\<forall>j. nn' = Some j \<longrightarrow> j < length nodes \<and> staysInPlace sn d thr a (nodes ! j) \<and>
       (\<forall>i<length nodes. staysInPlace sn d thr a (nodes ! i) \<longrightarrow>
          gapTo sn d thr (nodes ! j) \<le> gapTo sn d thr (nodes ! i) \<and>
          (i < j \<longrightarrow> gapTo sn d thr (nodes ! j) < gapTo sn d thr (nodes ! i))))"
proof -
  obtain m' where eq: "passTrack sn d thr a 0 nodes (None, None) = (m', nn')"
    using assms by (cases "passTrack sn d thr a 0 nodes (None, None)") simp
  from passTrack_spec [OF eq] show ?thesis
  proof (elim disjE exE conjE)
    assume "m' = None" "nn' = None"
      "\<forall>i<length nodes. staysInPlace sn d thr a (nodes ! i) \<longrightarrow>
          \<not> lessThanMinimal (gapTo sn d thr (nodes ! i)) None"
    then show ?thesis by (simp add: lessThanMinimal_def)
  next
    fix j assume j: "j < length nodes" "nn' = Some (0 + j)" "staysInPlace sn d thr a (nodes ! j)"
      "\<forall>i<length nodes. staysInPlace sn d thr a (nodes ! i) \<longrightarrow>
          gapTo sn d thr (nodes ! j) \<le> gapTo sn d thr (nodes ! i) \<and>
          (i < j \<longrightarrow> gapTo sn d thr (nodes ! j) < gapTo sn d thr (nodes ! i))"
    then show ?thesis by auto
  qed
qed

text \<open>
  Claim C2.  In one pass over the sibling list of the active container the node that is the
  dragged item is skipped and stays as it is; every other sibling whose leading edge on the
  axis is at or past the threshold gets the transform that translates it by the frozen size
  of the dragged item, with the configured transition; every remaining sibling has its
  transform removed; and the nearest node reported is, among the siblings that do not
  shift, the one with the smallest gap between threshold and leading edge, the first of
  them in sibling order when several have that gap.  So the nearest node is never the
  dragged item, and there is none exactly when no sibling stays in place.  Leading edge and
  gap are the numbers the pass computes, each read through \<open>safeNumber\<close>.
\<close>

theorem transformNodesByTarget_pass:
  "st = transformNodesByTarget sn w d tr p nodes a nh nw tto tfo \<Longrightarrow>
   thr = axisThreshold w d tr p \<Longrightarrow>
   styles = shiftStyles d nh nw (case tto of None \<Rightarrow> 0 | Some t \<Rightarrow> t) (case tfo of None \<Rightarrow> [] | Some f \<Rightarrow> f) \<Longrightarrow>
   length (elements st) = length nodes \<and>
   (\<forall>i<length nodes.
      (detectIsActiveDraggableNode (nodes ! i) a \<longrightarrow> elements st ! i = nodes ! i) \<and>
      (\<not> detectIsActiveDraggableNode (nodes ! i) a \<and> thr \<le> leadingEdge sn d (nodes ! i) \<longrightarrow>
         elements st ! i = setStyles (nodes ! i) styles \<and>
         map_of (style (elements st ! i)) ''transform'' =
           Some (case d of vertical \<Rightarrow> Translate3d 0 nh 0 | horizontal \<Rightarrow> Translate3d nw 0 0) \<and>
         map_of (style (elements st ! i)) ''transition'' =
           Some (ShiftTransition (case tto of None \<Rightarrow> 0 | Some t \<Rightarrow> t) (case tfo of None \<Rightarrow> [] | Some f \<Rightarrow> f))) \<and>
      (\<not> detectIsActiveDraggableNode (nodes ! i) a \<and> \<not> thr \<le> leadingEdge sn d (nodes ! i) \<longrightarrow>
         elements st ! i = removeStyles (nodes ! i) [''transform''] \<and>
         map_of (style (elements st ! i)) ''transform'' = None)) \<and>
   (nearestNode st = None \<longleftrightarrow>
      (\<forall>i<length nodes. detectIsActiveDraggableNode (nodes ! i) a \<or> thr \<le> leadingEdge sn d (nodes ! i))) \<and>
   (\<forall>j. nearestNode st = Some j \<longrightarrow>
      j < length nodes \<and> \<not> detectIsActiveDraggableNode (nodes ! j) a \<and>
      \<not> thr \<le> leadingEdge sn d (nodes ! j) \<and>
      (\<forall>i<length nodes.
         \<not> detectIsActiveDraggableNode (nodes ! i) a \<and> \<not> thr \<le> leadingEdge sn d (nodes ! i) \<longrightarrow>
           gapTo sn d thr (nodes ! j) \<le> gapTo sn d thr (nodes ! i) \<and>
           (i < j \<longrightarrow> gapTo sn d thr (nodes ! j) < gapTo sn d thr (nodes ! i))))"
proof -
  assume st: "st = transformNodesByTarget sn w d tr p nodes a nh nw tto tfo"
    and thr: "thr = axisThreshold w d tr p"
    and styles: "styles = shiftStyles d nh nw (case tto of None \<Rightarrow> 0 | Some t \<Rightarrow> t) (case tfo of None \<Rightarrow> [] | Some f \<Rightarrow> f)"
  have el: "elements st = map (passEffect sn d thr a styles) nodes"
    and nn: "nearestNode st = snd (passTrack sn d thr a 0 nodes (None, None))"
    unfolding st thr styles transformNodesByTarget_eq by simp_all
  have 1: "length (elements st) = length nodes"
    by (simp add: el)
  have 2: "\<forall>i<length nodes.
      (detectIsActiveDraggableNode (nodes ! i) a \<longrightarrow> elements st ! i = nodes ! i) \<and>
      (\<not> detectIsActiveDraggableNode (nodes ! i) a \<and> thr \<le> leadingEdge sn d (nodes ! i) \<longrightarrow>
         elements st ! i = setStyles (nodes ! i) styles \<and>
         map_of (style (elements st ! i)) ''transform'' =
           Some (case d of vertical \<Rightarrow> Translate3d 0 nh 0 | horizontal \<Rightarrow> Translate3d nw 0 0) \<and>
         map_of (style (elements st ! i)) ''transition'' =
           Some (ShiftTransition (case tto of None \<Rightarrow> 0 | Some t \<Rightarrow> t) (case tfo of None \<Rightarrow> [] | Some f \<Rightarrow> f))) \<and>
      (\<not> detectIsActiveDraggableNode (nodes ! i) a \<and> \<not> thr \<le> leadingEdge sn d (nodes ! i) \<longrightarrow>
         elements st ! i = removeStyles (nodes ! i) [''transform''] \<and>
         map_of (style (elements st ! i)) ''transform'' = None)"
    using map_of_setStyles_shift map_of_removeStyles_transform
    by (simp add: el passEffect_def styles)
  from nearest_spec [OF nn]
  have 3: "(nearestNode st = None \<longleftrightarrow>
      (\<forall>i<length nodes. detectIsActiveDraggableNode (nodes ! i) a \<or> thr \<le> leadingEdge sn d (nodes ! i)))"
    and 4: "\<forall>j. nearestNode st = Some j \<longrightarrow>
      j < length nodes \<and> \<not> detectIsActiveDraggableNode (nodes ! j) a \<and>
      \<not> thr \<le> leadingEdge sn d (nodes ! j) \<and>
      (\<forall>i<length nodes.
         \<not> detectIsActiveDraggableNode (nodes ! i) a \<and> \<not> thr \<le> leadingEdge sn d (nodes ! i) \<longrightarrow>
           gapTo sn d thr (nodes ! j) \<le> gapTo sn d thr (nodes ! i) \<and>
           (i < j \<longrightarrow> gapTo sn d thr (nodes ! j) < gapTo sn d thr (nodes ! i)))"
    unfolding staysInPlace_def by blast+
  from 1 2 3 4 show ?thesis by blast
qed

theorem transformNodesByTarget_pass_witness:
  "nearestNode (transformNodesByTarget exactNumber \<lparr>innerWidth = 1000, innerHeight = 800\<rparr> vertical
       \<lparr>top = 60, left = 0, width = 100, height = 40\<rparr> \<lparr>clientX = 10, clientY = 60\<rparr>
       exampleSiblings ''d'' 40 100 (Some 200) (Some ''ease-in-out'')) = Some 2 \<and>
   \<not> detectIsActiveDraggableNode (exampleSiblings ! 2) ''d'' \<and>
   map_of (style (elements (transformNodesByTarget exactNumber \<lparr>innerWidth = 1000, innerHeight = 800\<rparr> vertical
       \<lparr>top = 60, left = 0, width = 100, height = 40\<rparr> \<lparr>clientX = 10, clientY = 60\<rparr>
       exampleSiblings ''d'' 40 100 (Some 200) (Some ''ease-in-out'')) ! 3)) ''transform'' =
     Some (Translate3d 0 40 0) \<and>
   map_of (style (elements (transformNodesByTarget exactNumber \<lparr>innerWidth = 1000, innerHeight = 800\<rparr> vertical
       \<lparr>top = 60, left = 0, width = 100, height = 40\<rparr> \<lparr>clientX = 10, clientY = 60\<rparr>
       exampleSiblings ''d'' 40 100 (Some 200) (Some ''ease-in-out'')) ! 1)) ''transform'' = None"
proof -
  let ?w = "\<lparr>innerWidth = 1000, innerHeight = 800\<rparr>"
  let ?tr = "\<lparr>top = 60, left = 0, width = 100, height = 40\<rparr>"
  let ?p = "\<lparr>clientX = 10, clientY = 60\<rparr>"
  let ?T = "transformNodesByTarget exactNumber ?w vertical ?tr ?p
              exampleSiblings ''d'' 40 100 (Some 200) (Some ''ease-in-out'')"
  have thr: "axisThreshold ?w vertical ?tr ?p = 60"
    by (simp add: axisThreshold_def getThreshold_def)
  have len: "length exampleSiblings = 4"
    by (simp add: exampleSiblings_def)
  have n1: "\<not> detectIsActiveDraggableNode (exampleSiblings ! 1) ''d'' \<and>
            \<not> 60 \<le> leadingEdge exactNumber vertical (exampleSiblings ! 1)"
    by (simp add: exampleSiblings_def plainItem_def detectIsActiveDraggableNode_def
        leadingEdge_def exactNumber_def)
  have n3: "\<not> detectIsActiveDraggableNode (exampleSiblings ! 3) ''d'' \<and>
            60 \<le> leadingEdge exactNumber vertical (exampleSiblings ! 3)"
    by (simp add: exampleSiblings_def plainItem_def detectIsActiveDraggableNode_def
        leadingEdge_def exactNumber_def)
  have nn: "nearestNode ?T = Some 2"
    by (simp add: transformNodesByTarget_def readNodes_def exampleSiblings_def plainItem_def
        enumerate_eq_zip detectIsActiveDraggableNode_def getThreshold_def shiftClosure_def Let_def
        lessThanMinimal_def removeStyles_def removeStyleAttrIfEmpty_def setStyles_def
        setProperty_def namesMap_def upt_rec exactNumber_def)
  note pass = transformNodesByTarget_pass [OF refl refl refl, of exactNumber ?w vertical ?tr ?p
      exampleSiblings "''d''" 40 100 "Some 200" "Some ''ease-in-out''", unfolded thr len]
  from pass have a: "\<forall>j. nearestNode ?T = Some j \<longrightarrow>
      \<not> detectIsActiveDraggableNode (exampleSiblings ! j) ''d''"
    by blast
  from pass have b: "\<forall>i<4.
      (\<not> detectIsActiveDraggableNode (exampleSiblings ! i) ''d'' \<and>
         60 \<le> leadingEdge exactNumber vertical (exampleSiblings ! i) \<longrightarrow>
         map_of (style (elements ?T ! i)) ''transform'' =
           Some (case vertical of vertical \<Rightarrow> Translate3d 0 40 0 | horizontal \<Rightarrow> Translate3d 100 0 0)) \<and>
      (\<not> detectIsActiveDraggableNode (exampleSiblings ! i) ''d'' \<and>
         \<not> 60 \<le> leadingEdge exactNumber vertical (exampleSiblings ! i) \<longrightarrow>
         map_of (style (elements ?T ! i)) ''transform'' = None)"
    by blast
  have c: "map_of (style (elements ?T ! 3)) ''transform'' = Some (Translate3d 0 40 0)"
    using b n3 by simp
  have d: "map_of (style (elements ?T ! 1)) ''transform'' = None"
    using b n1 by simp
  from nn a c d show ?thesis by blast
qed

section \<open>Container intersection\<close>

text \<open>
  Claim C3, as stated, fails.  A dragged item at top 0 and left 0, 100 wide and 100 high,
  has its centre at (50, 50), strictly inside a container at top 10 and left 10 that is 200
  wide and 200 high; the handler does not call \<open>onIntersect\<close>, because the item's top-left
  corner is outside the container.
\<close>

theorem intersection_center_counterexample:
  "centerStrictlyInside (rect (plainItem 1 ''d'' 0 0 100 100)) (rect (plainItem 100 ''c'' 10 10 200 200)) \<and>
   intersectionHandler exactNumber True True False
     (Some (plainItem 1 ''d'' 0 0 100 100)) (Some (plainItem 100 ''c'' 10 10 200 200)) = Inr False"
  by (simp add: centerStrictlyInside_def intersectionHandler_def plainItem_def exactNumber_def)

text \<open>
  Claim C3, amended.  While a drag is active in the container's group and the container is
  not yet the active one, a pointer-move sample calls \<open>onIntersect\<close> exactly when the
  top-left corner of the dragged item's rectangle lies strictly inside the container's
  rectangle on both axes, all coordinates and extents read through \<open>safeNumber\<close>; a corner
  on the container's top or left edge does not activate it.
\<close>

theorem intersection_top_left_corner:
  "isSomeDragging \<Longrightarrow> isActiveGroup \<Longrightarrow> \<not> isActive \<Longrightarrow>
   intersectionHandler sn isSomeDragging isActiveGroup isActive (Some drag) (Some rootEl) =
     Inr (sn (top (rect rootEl)) < sn (top (rect drag)) \<and>
          sn (top (rect drag)) < sn (top (rect rootEl)) + sn (height (rect rootEl)) \<and>
          sn (left (rect rootEl)) < sn (left (rect drag)) \<and>
          sn (left (rect drag)) < sn (left (rect rootEl)) + sn (width (rect rootEl))) \<and>
   (top (rect drag) = top (rect rootEl) \<or> left (rect drag) = left (rect rootEl) \<longrightarrow>
      intersectionHandler sn isSomeDragging isActiveGroup isActive (Some drag) (Some rootEl) = Inr False)"
  by (auto simp: intersectionHandler_def Let_def)

theorem intersection_top_left_corner_witness:
  "intersectionHandler exactNumber True True False
     (Some (plainItem 1 ''d'' 20 30 100 100)) (Some (plainItem 100 ''c'' 10 10 200 200)) = Inr True \<and>
   intersectionHandler exactNumber True True False
     (Some (plainItem 1 ''d'' 10 30 100 100)) (Some (plainItem 100 ''c'' 10 10 200 200)) = Inr False"
  using intersection_top_left_corner [of True True False exactNumber
          "plainItem 1 ''d'' 20 30 100 100" "plainItem 100 ''c'' 10 10 200 200"]
        intersection_top_left_corner [of True True False exactNumber
          "plainItem 1 ''d'' 10 30 100 100" "plainItem 100 ''c'' 10 10 200 200"]
  by (simp add: plainItem_def exactNumber_def)

section \<open>Settling the dragged item\<close>

text \<open>
  Claim C1 says that, with no nearest sibling, the destination offset on the movement axis
  is the container's padded leading edge: top plus top padding in a vertical container,
  left plus left padding in a horizontal one.  Both fallbacks of the program return
  \<open>droppableTop\<close>.  For the horizontal container at top 10 and left 200 the offset is 10
  and the element's \<open>left\<close> is set to \<open>10px\<close>, where the padded left edge is 200.
\<close>

theorem horizontal_offset_without_nearest:
  "getVerticalDirectionOffset sn None ts droppableTop = droppableTop \<and>
   getHorizontalDirectionOffset sn None ts droppableTop = droppableTop \<and>
   getDroppableContainerOffsets exactNumber (Some exampleContainer) = Inr (10, 200) \<and>
   (case applyTargetNodeTransition exactNumber horizontal (Some exampleContainer) (Some exampleDragged) None 200 of
      Inl e \<Rightarrow> False
    | Inr r \<Rightarrow> offset r = 10 \<and> map_of (style (settledNode r)) ''left'' = Some (Px 10))"
  by (simp add: getVerticalDirectionOffset_def getHorizontalDirectionOffset_def
      getDroppableContainerOffsets_def applyTargetNodeTransition_def exampleContainer_def
      exampleDragged_def exactNumber_def setStyles_def setProperty_def namesMap_def Let_def)






section \<open>Release and teardown\<close>

lemma fold_callUnsubscribe:
  "fold callUnsubscribe us s =
     s\<lparr>documentListeners := fold (\<lambda>u. fold removeEventListener (removes u)) us (documentListeners s),
       trace := trace s @ map (\<lambda>u. CalledUnsubscribe (unsubscribeId u)) us\<rparr>"
  by (induction us arbitrary: s) (simp_all add: callUnsubscribe_def)

lemma unsubscribeAll_eq:
  "unsubscribeAll s =
     s\<lparr>documentListeners :=
         fold (\<lambda>u. fold removeEventListener (removes u)) (unsubscribers s) (documentListeners s),
       trace := trace s @ map (\<lambda>u. CalledUnsubscribe (unsubscribeId u)) (unsubscribers s),
       unsubscribers := []\<rparr>"
  by (simp add: unsubscribeAll_def fold_callUnsubscribe)

lemma fold_removeEventListener:
  "fold removeEventListener rs ls = filter (\<lambda>l. l \<notin> set rs) ls"
proof (induction rs arbitrary: ls)
  case Nil
  then show ?case by simp
next
  case (Cons r rs)
  have "fold removeEventListener (r # rs) ls = filter (\<lambda>l. l \<notin> set rs) (removeEventListener r ls)"
    by (simp add: Cons.IH)
  also have "\<dots> = filter (\<lambda>l. l \<notin> set (r # rs)) ls"
    unfolding removeEventListener_def by (induction ls) auto
  finally show ?case .
qed

lemma fold_unsubscribe_listeners:
  "fold (\<lambda>u. fold removeEventListener (removes u)) us ls =
     filter (\<lambda>l. \<forall>u \<in> set us. l \<notin> set (removes u)) ls"
proof (induction us arbitrary: ls)
  case Nil
  then show ?case by simp
next
  case (Cons u us)
  have "fold (\<lambda>u. fold removeEventListener (removes u)) (u # us) ls =
          filter (\<lambda>l. \<forall>u \<in> set us. l \<notin> set (removes u)) (filter (\<lambda>l. l \<notin> set (removes u)) ls)"
    by (simp add: Cons.IH fold_removeEventListener)
  also have "\<dots> = filter (\<lambda>l. \<forall>v \<in> set (u # us). l \<notin> set (removes v)) ls"
    by (simp add: conj_commute)
  finally show ?case .
qed

text \<open>
  Claim C5.  The unsubscribe sequence empties the registry and calls every registered
  closure once, in order; the listeners those closures remove are gone from the document.
  Running the sequence a second time changes nothing: no closure is called, no listener is
  removed, and the registry is empty as after the first run.
\<close>

theorem unsubscribeAll_twice:
  "unsubscribers (unsubscribeAll s) = [] \<and>
   trace (unsubscribeAll s) =
     trace s @ map (\<lambda>u. CalledUnsubscribe (unsubscribeId u)) (unsubscribers s) \<and>
   documentListeners (unsubscribeAll s) =
     filter (\<lambda>l. \<forall>u \<in> set (unsubscribers s). l \<notin> set (removes u)) (documentListeners s) \<and>
   unsubscribeAll (unsubscribeAll s) = unsubscribeAll s"
proof -
  have 1: "unsubscribers (unsubscribeAll s) = []"
    by (simp add: unsubscribeAll_eq)
  have 2: "trace (unsubscribeAll s) =
     trace s @ map (\<lambda>u. CalledUnsubscribe (unsubscribeId u)) (unsubscribers s)"
    by (simp add: unsubscribeAll_eq)
  have 3: "documentListeners (unsubscribeAll s) =
     filter (\<lambda>l. \<forall>u \<in> set (unsubscribers s). l \<notin> set (removes u)) (documentListeners s)"
    by (simp add: unsubscribeAll_eq fold_unsubscribe_listeners)
  have 4: "unsubscribeAll (unsubscribeAll s) = unsubscribeAll s"
    using 1 by (simp add: unsubscribeAll_def [of "unsubscribeAll s"])
  from 1 2 3 4 show ?thesis by blast
qed

theorem unsubscribeAll_twice_witness:
  "unsubscribers (unsubscribeAll (exampleSession slidingSibling)) = [] \<and>
   trace (unsubscribeAll (unsubscribeAll (exampleSession slidingSibling))) =
     [CalledUnsubscribe 1, CalledUnsubscribe 2, CalledUnsubscribe 3] \<and>
   documentListeners (unsubscribeAll (unsubscribeAll (exampleSession slidingSibling))) = []"
  using unsubscribeAll_twice [of "exampleSession slidingSibling"]
  by (simp add: exampleSession_def subscribe_def addEventListener_def)

text \<open>
  Claim C7, as stated, fails.  It says that settlement is deferred when the nearest node's
  computed transform is not an identity transform, and proceeds at once otherwise.  A
  nearest node whose computed transform is the identity matrix has an identity transform,
  yet on release settlement does not begin: the program compares the computed transform
  with the string \<open>none\<close>, so it installs the \<open>transitionend\<close> listener and waits.
\<close>

theorem release_identity_matrix_counterexample:
  "isIdentityTransform (transform (computedStyle restingSibling)) \<and>
   settled (handleEvent exactNumber vertical 200 (exampleSession restingSibling)) = None \<and>
   transitionEndListeners (handleEvent exactNumber vertical 200 (exampleSession restingSibling)) =
     [restingSibling] \<and>
   trace (handleEvent exactNumber vertical 200 (exampleSession restingSibling)) =
     [CalledUnsubscribe 1, CalledUnsubscribe 2, CalledUnsubscribe 3]"
  by (simp add: isIdentityTransform_def restingSibling_def handleEvent_def Let_def
      unsubscribeAll_eq exampleSession_def subscribe_def addEventListener_def plainItem_def)

text \<open>
  Claim C7, amended.  On release every closure of the registry has been called, the
  listeners they remove are gone and the registry is empty, before settlement begins.  If a
  nearest node exists and its computed transform is not the string \<open>none\<close> (be it the
  identity matrix or not), settlement does not begin on release: a \<open>transitionend\<close>
  listener is installed on the nearest node, an event that reaches it begins settlement
  when its target is the nearest node and its property name is \<open>transform\<close>, and an event
  with another target or another property name changes nothing.  Otherwise (no nearest
  node, or computed transform \<open>none\<close>) settlement begins on release.
\<close>

theorem handleEvent_defers_settlement:
  "transitionEndListeners s = [] \<Longrightarrow>
   unsubscribers (handleEvent sn d tt s) = [] \<and>
   documentListeners (handleEvent sn d tt s) =
     filter (\<lambda>l. \<forall>u \<in> set (unsubscribers s). l \<notin> set (removes u)) (documentListeners s) \<and>
   (\<forall>n. nearestNodeRef s = Some n \<and> transform (computedStyle n) \<noteq> ''none'' \<longrightarrow>
      settled (handleEvent sn d tt s) = settled s \<and>
      transitionEndListeners (handleEvent sn d tt s) = [n] \<and>
      trace (handleEvent sn d tt s) =
        trace s @ map (\<lambda>u. CalledUnsubscribe (unsubscribeId u)) (unsubscribers s) \<and>
      (\<forall>e. ref n \<in> set (eventPath e) \<and> eventTarget e = ref n \<and> propertyName e = ''transform'' \<longrightarrow>
         settled (dispatchTransitionEnd sn d tt e (handleEvent sn d tt s)) =
           Some (applyTargetNodeTransition sn d (activeDroppableNode s) (activeDraggableNode s) (Some n) tt) \<and>
         transitionEndListeners (dispatchTransitionEnd sn d tt e (handleEvent sn d tt s)) = [] \<and>
         trace (dispatchTransitionEnd sn d tt e (handleEvent sn d tt s)) =
           trace s @ map (\<lambda>u. CalledUnsubscribe (unsubscribeId u)) (unsubscribers s) @ [BeganSettle]) \<and>
      (\<forall>e. eventTarget e \<noteq> ref n \<or> propertyName e \<noteq> ''transform'' \<longrightarrow>
         dispatchTransitionEnd sn d tt e (handleEvent sn d tt s) = handleEvent sn d tt s)) \<and>
   (nearestNodeRef s = None \<or> (\<exists>n. nearestNodeRef s = Some n \<and> transform (computedStyle n) = ''none'') \<longrightarrow>
      settled (handleEvent sn d tt s) =
        Some (applyTargetNodeTransition sn d (activeDroppableNode s) (activeDraggableNode s) (nearestNodeRef s) tt) \<and>
      transitionEndListeners (handleEvent sn d tt s) = [] \<and>
      trace (handleEvent sn d tt s) =
        trace s @ map (\<lambda>u. CalledUnsubscribe (unsubscribeId u)) (unsubscribers s) @ [BeganSettle])"
proof -
  assume none: "transitionEndListeners s = []"
  let ?h = "handleEvent sn d tt s"
  let ?calls = "map (\<lambda>u. CalledUnsubscribe (unsubscribeId u)) (unsubscribers s)"
  have 1: "unsubscribers ?h = []"
    by (simp add: handleEvent_def Let_def unsubscribeAll_eq applyTransition_def split: option.splits)
  have 0: "documentListeners ?h =
     filter (\<lambda>l. \<forall>u \<in> set (unsubscribers s). l \<notin> set (removes u)) (documentListeners s)"
    by (simp add: handleEvent_def Let_def unsubscribeAll_eq applyTransition_def
        fold_unsubscribe_listeners split: option.splits)
  have deferred: "?h = (unsubscribeAll s)\<lparr>transitionEndListeners := [n]\<rparr>"
    if "nearestNodeRef s = Some n" "transform (computedStyle n) \<noteq> ''none''" for n
    using that none by (simp add: handleEvent_def Let_def unsubscribeAll_eq)
  have 2: "settled ?h = settled s \<and> transitionEndListeners ?h = [n] \<and> trace ?h = trace s @ ?calls \<and>
      (\<forall>e. ref n \<in> set (eventPath e) \<and> eventTarget e = ref n \<and> propertyName e = ''transform'' \<longrightarrow>
         settled (dispatchTransitionEnd sn d tt e ?h) =
           Some (applyTargetNodeTransition sn d (activeDroppableNode s) (activeDraggableNode s) (Some n) tt) \<and>
         transitionEndListeners (dispatchTransitionEnd sn d tt e ?h) = [] \<and>
         trace (dispatchTransitionEnd sn d tt e ?h) = trace s @ ?calls @ [BeganSettle]) \<and>
      (\<forall>e. eventTarget e \<noteq> ref n \<or> propertyName e \<noteq> ''transform'' \<longrightarrow>
         dispatchTransitionEnd sn d tt e ?h = ?h)"
    if "nearestNodeRef s = Some n" "transform (computedStyle n) \<noteq> ''none''" for n
    unfolding deferred [OF that]
    by (simp add: unsubscribeAll_eq dispatchTransitionEnd_def handleTransitionEnd_def applyTransition_def)
  have 3: "settled ?h =
        Some (applyTargetNodeTransition sn d (activeDroppableNode s) (activeDraggableNode s) (nearestNodeRef s) tt) \<and>
      transitionEndListeners ?h = [] \<and>
      trace ?h = trace s @ ?calls @ [BeganSettle]"
    if "nearestNodeRef s = None \<or> (\<exists>n. nearestNodeRef s = Some n \<and> transform (computedStyle n) = ''none'')"
    using that none
    by (auto simp: handleEvent_def Let_def unsubscribeAll_eq applyTransition_def)
  from 0 1 2 3 show ?thesis by blast
qed

theorem handleEvent_defers_settlement_witness:
  "settled (handleEvent exactNumber vertical 200 (exampleSession slidingSibling)) = None \<and>
   trace (handleEvent exactNumber vertical 200 (exampleSession slidingSibling)) =
     [CalledUnsubscribe 1, CalledUnsubscribe 2, CalledUnsubscribe 3] \<and>
   dispatchTransitionEnd exactNumber vertical 200
       \<lparr>eventTarget = 3, propertyName = ''opacity'', eventPath = [3, 100]\<rparr>
       (handleEvent exactNumber vertical 200 (exampleSession slidingSibling)) =
     handleEvent exactNumber vertical 200 (exampleSession slidingSibling) \<and>
   trace (dispatchTransitionEnd exactNumber vertical 200
       \<lparr>eventTarget = 3, propertyName = ''transform'', eventPath = [3, 100]\<rparr>
       (handleEvent exactNumber vertical 200 (exampleSession slidingSibling))) =
     [CalledUnsubscribe 1, CalledUnsubscribe 2, CalledUnsubscribe 3, BeganSettle] \<and>
   trace (handleEvent exactNumber vertical 200 (exampleSession (plainItem 3 ''y'' 50 0 100 40))) =
     [CalledUnsubscribe 1, CalledUnsubscribe 2, CalledUnsubscribe 3, BeganSettle]"
proof -
  have a: "nearestNodeRef (exampleSession slidingSibling) = Some slidingSibling \<and>
           transform (computedStyle slidingSibling) \<noteq> ''none''"
    by (simp add: exampleSession_def subscribe_def slidingSibling_def)
  have b: "nearestNodeRef (exampleSession (plainItem 3 ''y'' 50 0 100 40)) = None \<or>
     (\<exists>n. nearestNodeRef (exampleSession (plainItem 3 ''y'' 50 0 100 40)) = Some n \<and>
          transform (computedStyle n) = ''none'')"
    by (simp add: exampleSession_def subscribe_def plainItem_def)
  have r: "ref slidingSibling = 3"
    by (simp add: slidingSibling_def plainItem_def)
  have t: "trace (exampleSession n) = []"
    "map (\<lambda>u. CalledUnsubscribe (unsubscribeId u)) (unsubscribers (exampleSession n)) =
       [CalledUnsubscribe 1, CalledUnsubscribe 2, CalledUnsubscribe 3]"
    "settled (exampleSession n) = None" for n
    by (simp_all add: exampleSession_def subscribe_def addEventListener_def)
  have l: "transitionEndListeners (exampleSession n) = []" for n
    by (simp add: exampleSession_def subscribe_def addEventListener_def)
  from handleEvent_defers_settlement [OF l, of exactNumber vertical 200 slidingSibling]
  have d: "settled (handleEvent exactNumber vertical 200 (exampleSession slidingSibling)) = None"
    "trace (handleEvent exactNumber vertical 200 (exampleSession slidingSibling)) =
       [CalledUnsubscribe 1, CalledUnsubscribe 2, CalledUnsubscribe 3]"
    "\<And>e. eventTarget e \<noteq> 3 \<or> propertyName e \<noteq> ''transform'' \<Longrightarrow>
       dispatchTransitionEnd exactNumber vertical 200 e
         (handleEvent exactNumber vertical 200 (exampleSession slidingSibling)) =
       handleEvent exactNumber vertical 200 (exampleSession slidingSibling)"
    "\<And>e. 3 \<in> set (eventPath e) \<and> eventTarget e = 3 \<and> propertyName e = ''transform'' \<Longrightarrow>
       trace (dispatchTransitionEnd exactNumber vertical 200 e
         (handleEvent exactNumber vertical 200 (exampleSession slidingSibling))) =
       [CalledUnsubscribe 1, CalledUnsubscribe 2, CalledUnsubscribe 3, BeganSettle]"
    using a by (simp_all add: r t)
  from handleEvent_defers_settlement [OF l, of exactNumber vertical 200 "plainItem 3 ''y'' 50 0 100 40"]
  have i: "trace (handleEvent exactNumber vertical 200 (exampleSession (plainItem 3 ''y'' 50 0 100 40))) =
     [CalledUnsubscribe 1, CalledUnsubscribe 2, CalledUnsubscribe 3, BeganSettle]"
    using b by (simp add: t)
  show ?thesis
    using d(1) d(2) i
      d(3) [of "\<lparr>eventTarget = 3, propertyName = ''opacity'', eventPath = [3, 100]\<rparr>"]
      d(4) [of "\<lparr>eventTarget = 3, propertyName = ''transform'', eventPath = [3, 100]\<rparr>"]
    by simp
qed

section \<open>Placeholder\<close>

text \<open>
  Claim C6.  Calling \<open>removePlaceholder\<close> while it is still the empty function changes
  nothing.  An insert into a container adds one filler and calls \<open>onInsertPlaceholder\<close>
  exactly once; the first removal after it detaches the filler and replaces the removal
  operation by the empty function; a second removal changes nothing, so after one insert
  and two removals the container has the fillers it had before the insert, none when it had
  none.  No removal calls \<open>onInsertPlaceholder\<close>.
\<close>

theorem placeholder_remove_idempotent:
  "(removePlaceholder s = Noop \<longrightarrow> callRemovePlaceholder s = Inr s) \<and>
   (container s = Some children \<and> (\<forall>c \<in> set children. childRef c \<noteq> nextRef s) \<longrightarrow>
      (\<exists>s1 s2. insertPlaceholder True w h s = Inr s1 \<and>
         insertNotifications s1 = Suc (insertNotifications s) \<and>
         fillers s1 = Suc (fillers s) \<and>
         callRemovePlaceholder s1 = Inr s2 \<and>
         removePlaceholder s2 = Noop \<and>
         container s2 = Some children \<and>
         fillers s2 = fillers s \<and>
         insertNotifications s2 = Suc (insertNotifications s) \<and>
         callRemovePlaceholder s2 = Inr s2))"
proof -
  have 1: "removePlaceholder s = Noop \<longrightarrow> callRemovePlaceholder s = Inr s"
    by (simp add: callRemovePlaceholder_def)
  have 2: "\<exists>s1 s2. insertPlaceholder True w h s = Inr s1 \<and>
         insertNotifications s1 = Suc (insertNotifications s) \<and>
         fillers s1 = Suc (fillers s) \<and>
         callRemovePlaceholder s1 = Inr s2 \<and>
         removePlaceholder s2 = Noop \<and>
         container s2 = Some children \<and>
         fillers s2 = fillers s \<and>
         insertNotifications s2 = Suc (insertNotifications s) \<and>
         callRemovePlaceholder s2 = Inr s2"
    if c: "container s = Some children" and fresh: "\<forall>c \<in> set children. childRef c \<noteq> nextRef s"
  proof -
    let ?p = "setStyles (createElement (nextRef s))
                [(''width'', Px w), (''height'', Px h), (''flex'', Raw ''0 0 auto'')]"
    let ?s1 = "s\<lparr>nextRef := Suc (nextRef s), removePlaceholder := Detach (nextRef s),
                 container := Some (children @ [Filler ?p]),
                 insertNotifications := Suc (insertNotifications s)\<rparr>"
    let ?s2 = "?s1\<lparr>container := Some children, removePlaceholder := Noop\<rparr>"
    have rp: "ref ?p = nextRef s"
      by (simp add: setStyles_def setProperty_def createElement_def)
    have ins: "insertPlaceholder True w h s = Inr ?s1"
      using c by (simp add: insertPlaceholder_def Let_def createElement_def)
    have keep: "filter (\<lambda>c. childRef c \<noteq> nextRef s) children = children"
      using fresh by (simp add: filter_id_conv)
    have rem: "callRemovePlaceholder ?s1 = Inr ?s2"
      by (simp add: callRemovePlaceholder_def rp keep)
    have again: "callRemovePlaceholder ?s2 = Inr ?s2"
      by (simp add: callRemovePlaceholder_def)
    have f1: "fillers ?s1 = Suc (fillers s)" and f2: "fillers ?s2 = fillers s"
      using c by (simp_all add: fillers_def)
    show ?thesis
      using ins rem again f1 f2 by (intro exI [of _ ?s1] exI [of _ ?s2]) simp
  qed
  from 1 2 show ?thesis by blast
qed

theorem placeholder_remove_idempotent_witness:
  "\<exists>s1 s2. insertPlaceholder True 100 40
        \<lparr>container = Some [Item (plainItem 1 ''a'' 0 0 100 40)], removePlaceholder = Noop,
         insertNotifications = 0, nextRef = 7\<rparr> = Inr s1 \<and>
      insertNotifications s1 = 1 \<and> fillers s1 = 1 \<and>
      callRemovePlaceholder s1 = Inr s2 \<and> fillers s2 = 0 \<and> callRemovePlaceholder s2 = Inr s2"
proof -
  let ?s = "\<lparr>container = Some [Item (plainItem 1 ''a'' 0 0 100 40)], removePlaceholder = Noop,
             insertNotifications = 0, nextRef = 7\<rparr>"
  have hyp: "container ?s = Some [Item (plainItem 1 ''a'' 0 0 100 40)] \<and>
      (\<forall>c \<in> set [Item (plainItem 1 ''a'' 0 0 100 40)]. childRef c \<noteq> nextRef ?s)"
    by (simp add: plainItem_def)
  have zero: "fillers ?s = 0" "insertNotifications ?s = 0"
    by (simp_all add: fillers_def)
  from placeholder_remove_idempotent [of ?s "[Item (plainItem 1 ''a'' 0 0 100 40)]" 100 40] hyp
  obtain s1 s2 where "insertPlaceholder True 100 40 ?s = Inr s1"
    "insertNotifications s1 = Suc (insertNotifications ?s)" "fillers s1 = Suc (fillers ?s)"
    "callRemovePlaceholder s1 = Inr s2" "fillers s2 = fillers ?s" "callRemovePlaceholder s2 = Inr s2"
    by blast
  then show ?thesis
    unfolding zero by (intro exI [of _ s1] exI [of _ s2]) simp
qed


end
